theory Spec2Isabelle
  imports Complex_Main "HOL-Library.Log_Nat" "HOL-Library.Multiset" "HOL-Library.Option_ord"
begin

section \<open>JavaScript numbers\<close>

text \<open>
  A JavaScript number is an IEEE 754 double: a finite value (a rational here, the two
  zeros taken as one), an infinity or \<^verbatim>\<open>NaN\<close>. Every arithmetic operation computes the
  exact result and rounds it to the nearest double, a tie going to the even significand
  of 53 bits; a result of magnitude \<open>2 ^ 1024\<close> or more after rounding is an infinity.
  Below the least normal double the spacing of the doubles stays at \<open>2 ^ -1074\<close>.
\<close>

datatype double = Finite rat | PosInfinity | NegInfinity | NaN

text \<open>\<open>binary_exponent x\<close> is the \<open>k\<close> with \<open>2 ^ k \<le> x < 2 ^ (k + 1)\<close>, for \<open>x > 0\<close>.\<close>

definition binary_exponent :: "rat \<Rightarrow> int" where
  "binary_exponent x =
     (if 1 \<le> x then bitlen \<lfloor>x\<rfloor> - 1 else - bitlen (\<lceil>1 / x\<rceil> - 1))"

definition round_half_even :: "rat \<Rightarrow> int" where
  "round_half_even y =
     (let f = \<lfloor>y\<rfloor>; d = y - of_int f
      in if d < 1 / 2 then f else if 1 / 2 < d then f + 1 else if even f then f else f + 1)"

text \<open>
  The nearest number with a significand of 53 bits and an exponent of at least \<open>-1074\<close>,
  for \<open>x > 0\<close>.
\<close>

definition nearest :: "rat \<Rightarrow> rat" where
  "nearest x =
     (let ulp = 2 powi (max (binary_exponent x - 52) (- 1074))
      in of_int (round_half_even (x / ulp)) * ulp)"

definition round_to_double :: "rat \<Rightarrow> double" where
  "round_to_double x =
     (if x = 0 then Finite 0
      else if 0 < x
        then (if 2 ^ 1024 \<le> nearest x then PosInfinity else Finite (nearest x))
        else (if 2 ^ 1024 \<le> nearest (- x) then NegInfinity else Finite (- nearest (- x))))"

text \<open>
  The number that an integer argument or an integer constant is, and the number that a
  decimal literal of the source (\<^verbatim>\<open>0.5\<close>, \<^verbatim>\<open>0.1\<close>) is.
\<close>

definition double_of_int :: "int \<Rightarrow> double" where
  "double_of_int n = round_to_double (of_int n)"

definition decimal_literal :: "rat \<Rightarrow> double" where
  "decimal_literal x = round_to_double x"

text \<open>The sign of a number that is not \<^verbatim>\<open>NaN\<close>, and the infinity of a sign.\<close>

definition sign_of :: "double \<Rightarrow> int" where
  "sign_of a =
     (case a of
        Finite x \<Rightarrow> (if x < 0 then - 1 else if x = 0 then 0 else 1)
      | PosInfinity \<Rightarrow> 1
      | NegInfinity \<Rightarrow> - 1
      | NaN \<Rightarrow> 0)"

definition infinity_of :: "int \<Rightarrow> double" where
  "infinity_of s = (if 0 < s then PosInfinity else if s < 0 then NegInfinity else NaN)"

text \<open>
  \<^verbatim>\<open>a * b\<close>, \<^verbatim>\<open>a + b\<close> and \<^verbatim>\<open>a / b\<close>. A zero divisor is the positive zero: no divisor of
  the functions modelled here is zero.
\<close>

definition js_times :: "double \<Rightarrow> double \<Rightarrow> double" where
  "js_times a b =
     (if a = NaN \<or> b = NaN then NaN
      else case (a, b) of
        (Finite x, Finite y) \<Rightarrow> round_to_double (x * y)
      | _ \<Rightarrow> infinity_of (sign_of a * sign_of b))"

definition js_plus :: "double \<Rightarrow> double \<Rightarrow> double" where
  "js_plus a b =
     (if a = NaN \<or> b = NaN then NaN
      else case (a, b) of
        (Finite x, Finite y) \<Rightarrow> round_to_double (x + y)
      | (Finite x, _) \<Rightarrow> b
      | (_, Finite y) \<Rightarrow> a
      | _ \<Rightarrow> if a = b then a else NaN)"

definition js_divide :: "double \<Rightarrow> double \<Rightarrow> double" where
  "js_divide a b =
     (if a = NaN \<or> b = NaN then NaN
      else case (a, b) of
        (Finite x, Finite y) \<Rightarrow>
          (if y = 0 then infinity_of (sign_of a) else round_to_double (x / y))
      | (Finite x, _) \<Rightarrow> Finite 0
      | (_, Finite y) \<Rightarrow> infinity_of (sign_of a * (if y < 0 then - 1 else 1))
      | _ \<Rightarrow> NaN)"

text \<open>
  \<^verbatim>\<open>Math.floor\<close>; \<^verbatim>\<open>Math.round\<close>, which rounds a half towards plus infinity; and
  \<^verbatim>\<open>Math.min\<close> of two numbers.
\<close>

definition Math_floor :: "double \<Rightarrow> double" where
  "Math_floor a = (case a of Finite x \<Rightarrow> Finite (of_int \<lfloor>x\<rfloor>) | _ \<Rightarrow> a)"

definition Math_round :: "double \<Rightarrow> double" where
  "Math_round a = (case a of Finite x \<Rightarrow> Finite (of_int \<lfloor>x + 1 / 2\<rfloor>) | _ \<Rightarrow> a)"

text \<open>The comparison \<^verbatim>\<open>a <= b\<close>: it is false when one of the two is \<^verbatim>\<open>NaN\<close>.\<close>

definition js_le :: "double \<Rightarrow> double \<Rightarrow> bool" where
  "js_le a b =
     (if a = NaN \<or> b = NaN then False
      else if a = NegInfinity \<or> b = PosInfinity then True
      else case (a, b) of (Finite x, Finite y) \<Rightarrow> x \<le> y | _ \<Rightarrow> False)"

definition Math_min :: "double \<Rightarrow> double \<Rightarrow> double" where
  "Math_min a b =
     (if a = NaN \<or> b = NaN then NaN
      else if a = NegInfinity \<or> b = NegInfinity then NegInfinity
      else case (a, b) of
        (Finite x, Finite y) \<Rightarrow> Finite (min x y)
      | (Finite x, _) \<Rightarrow> a
      | (_, Finite y) \<Rightarrow> b
      | _ \<Rightarrow> PosInfinity)"

section \<open>Guardian ranks\<close>

text \<open>
  The Guardian system of \<^verbatim>\<open>lib/guardian\<close>: ranks, rank requirements, rank resolution
  and progress to the next rank. Counts and point totals are integers (\<open>int\<close>);
  \<open>calculateRank\<close> only compares them. Where the source divides and multiplies, the
  integers are taken as the numbers they are and the arithmetic is that of doubles.
\<close>

datatype GuardianRank = Observer | Bronze | Silver | Gold | Diamond

record rank_requirement =
  min_verified :: int
  min_points :: int

fun RANK_REQUIREMENTS :: "GuardianRank \<Rightarrow> rank_requirement" where
  "RANK_REQUIREMENTS Observer = \<lparr>min_verified = 0, min_points = 0\<rparr>"
| "RANK_REQUIREMENTS Bronze = \<lparr>min_verified = 5, min_points = 50\<rparr>"
| "RANK_REQUIREMENTS Silver = \<lparr>min_verified = 20, min_points = 200\<rparr>"
| "RANK_REQUIREMENTS Gold = \<lparr>min_verified = 50, min_points = 500\<rparr>"
| "RANK_REQUIREMENTS Diamond = \<lparr>min_verified = 100, min_points = 1000\<rparr>"

definition calculateRank :: "int \<Rightarrow> int \<Rightarrow> GuardianRank" where
  "calculateRank verifiedReports points =
     (if verifiedReports \<ge> 100 \<and> points \<ge> 1000 then Diamond
      else if verifiedReports \<ge> 50 \<and> points \<ge> 500 then Gold
      else if verifiedReports \<ge> 20 \<and> points \<ge> 200 then Silver
      else if verifiedReports \<ge> 5 \<and> points \<ge> 50 then Bronze
      else Observer)"

text \<open>The rank ladder of \<^verbatim>\<open>getRankProgress\<close> and JavaScript's \<^verbatim>\<open>indexOf\<close> (\<open>-1\<close> when absent).\<close>

definition ranks :: "GuardianRank list" where
  "ranks = [Observer, Bronze, Silver, Gold, Diamond]"

fun indexOf :: "'a list \<Rightarrow> 'a \<Rightarrow> int" where
  "indexOf [] x = -1"
| "indexOf (y # ys) x =
     (if y = x then 0 else (let i = indexOf ys x in if i < 0 then -1 else i + 1))"

record rank_progress =
  nextRank :: "GuardianRank option"
  verifiedProgress :: double
  pointsProgress :: double

definition getRankProgress :: "GuardianRank \<Rightarrow> int \<Rightarrow> int \<Rightarrow> rank_progress" where
  "getRankProgress currentRank verifiedReports points =
     (let currentIndex = indexOf ranks currentRank in
      if currentIndex = int (length ranks) - 1
      then \<lparr>nextRank = None, verifiedProgress = double_of_int 100,
            pointsProgress = double_of_int 100\<rparr>
      else
        (let next = ranks ! nat (currentIndex + 1);
             requirements = RANK_REQUIREMENTS next
         in \<lparr>nextRank = Some next,
              verifiedProgress =
                Math_min (double_of_int 100)
                  (js_times (js_divide (double_of_int verifiedReports)
                            (double_of_int (min_verified requirements)))
                         (double_of_int 100)),
              pointsProgress =
                Math_min (double_of_int 100)
                  (js_times (js_divide (double_of_int points)
                            (double_of_int (min_points requirements)))
                         (double_of_int 100))\<rparr>))"

text \<open>
  The order \<open>observer < bronze < silver < gold < diamond\<close> is the position in the ladder.
\<close>

definition rank_position :: "GuardianRank \<Rightarrow> int" where
  "rank_position r = indexOf ranks r"

definition meets_requirements :: "GuardianRank \<Rightarrow> int \<Rightarrow> int \<Rightarrow> bool" where
  "meets_requirements r verifiedReports points \<longleftrightarrow>
     verifiedReports \<ge> min_verified (RANK_REQUIREMENTS r) \<and>
     points \<ge> min_points (RANK_REQUIREMENTS r)"

section \<open>Badges\<close>

text \<open>
  A catalog entry of \<^verbatim>\<open>BADGES\<close>. The fields \<^verbatim>\<open>id\<close>, \<^verbatim>\<open>name\<close>, \<^verbatim>\<open>description\<close>,
  \<^verbatim>\<open>icon\<close> and \<^verbatim>\<open>points\<close> carry the prefix \<open>badge_\<close> here.
\<close>

record Badge =
  badge_id :: string
  badge_name :: string
  badge_description :: string
  badge_icon :: string
  badge_points :: int

definition first_report :: Badge where
  "first_report = \<lparr>badge_id = ''first_report'', badge_name = ''First Report'',
     badge_description = ''Submitted your first incident report'',
     badge_icon = ''flag'', badge_points = 10\<rparr>"

definition verified_5 :: Badge where
  "verified_5 = \<lparr>badge_id = ''verified_5'', badge_name = ''Trusted Reporter'',
     badge_description = ''5 reports verified by moderators'',
     badge_icon = ''check-circle'', badge_points = 50\<rparr>"

definition verified_20 :: Badge where
  "verified_20 = \<lparr>badge_id = ''verified_20'', badge_name = ''Community Guardian'',
     badge_description = ''20 reports verified'',
     badge_icon = ''shield'', badge_points = 100\<rparr>"

definition verified_50 :: Badge where
  "verified_50 = \<lparr>badge_id = ''verified_50'', badge_name = ''Environmental Champion'',
     badge_description = ''50 verified reports'',
     badge_icon = ''award'', badge_points = 250\<rparr>"

definition enforcement_1 :: Badge where
  "enforcement_1 = \<lparr>badge_id = ''enforcement_1'', badge_name = ''Justice Seeker'',
     badge_description = ''Report led to enforcement action'',
     badge_icon = ''gavel'', badge_points = 100\<rparr>"

definition enforcement_5 :: Badge where
  "enforcement_5 = \<lparr>badge_id = ''enforcement_5'', badge_name = ''Law Enforcer'',
     badge_description = ''5 reports led to enforcement'',
     badge_icon = ''shield-check'', badge_points = 500\<rparr>"

definition water_guardian :: Badge where
  "water_guardian = \<lparr>badge_id = ''water_guardian'', badge_name = ''Water Guardian'',
     badge_description = ''Reported 10 water pollution incidents'',
     badge_icon = ''droplet'', badge_points = 75\<rparr>"

definition forest_protector :: Badge where
  "forest_protector = \<lparr>badge_id = ''forest_protector'', badge_name = ''Forest Protector'',
     badge_description = ''Reported 10 deforestation incidents'',
     badge_icon = ''tree-pine'', badge_points = 75\<rparr>"

definition early_bird :: Badge where
  "early_bird = \<lparr>badge_id = ''early_bird'', badge_name = ''Early Bird'',
     badge_description = ''Submitted report within 24h of activity'',
     badge_icon = ''clock'', badge_points = 25\<rparr>"

definition photo_evidence :: Badge where
  "photo_evidence = \<lparr>badge_id = ''photo_evidence'', badge_name = ''Photo Journalist'',
     badge_description = ''Uploaded 50 pieces of evidence'',
     badge_icon = ''camera'', badge_points = 50\<rparr>"

definition voice_reporter :: Badge where
  "voice_reporter = \<lparr>badge_id = ''voice_reporter'', badge_name = ''Voice Reporter'',
     badge_description = ''Used voice input for 10 reports'',
     badge_icon = ''mic'', badge_points = 30\<rparr>"

definition regional_expert :: Badge where
  "regional_expert = \<lparr>badge_id = ''regional_expert'', badge_name = ''Regional Expert'',
     badge_description = ''Top reporter in your region for a month'',
     badge_icon = ''map-pin'', badge_points = 100\<rparr>"

definition streak_7 :: Badge where
  "streak_7 = \<lparr>badge_id = ''streak_7'', badge_name = ''Dedicated Watcher'',
     badge_description = ''Reported incidents 7 days in a row'',
     badge_icon = ''flame'', badge_points = 50\<rparr>"

definition streak_30 :: Badge where
  "streak_30 = \<lparr>badge_id = ''streak_30'', badge_name = ''Vigilant Guardian'',
     badge_description = ''Active for 30 consecutive days'',
     badge_icon = ''flame'', badge_points = 150\<rparr>"

text \<open>The catalog, in the order of the object literal: key and entry.\<close>

definition BADGES :: "(string \<times> Badge) list" where
  "BADGES =
     [(''first_report'', first_report), (''verified_5'', verified_5),
      (''verified_20'', verified_20), (''verified_50'', verified_50),
      (''enforcement_1'', enforcement_1), (''enforcement_5'', enforcement_5),
      (''water_guardian'', water_guardian), (''forest_protector'', forest_protector),
      (''early_bird'', early_bird), (''photo_evidence'', photo_evidence),
      (''voice_reporter'', voice_reporter), (''regional_expert'', regional_expert),
      (''streak_7'', streak_7), (''streak_30'', streak_30)]"

text \<open>The statistics snapshot that \<^verbatim>\<open>checkEarnedBadges\<close> receives.\<close>

record badge_stats =
  reports_submitted :: int
  reports_verified :: int
  enforcement_actions :: int
  water_reports :: int
  deforestation_reports :: int
  evidence_count :: int
  voice_reports :: int
  activity_streak :: int
  is_regional_top :: bool
  existing_badges :: "string list"

text \<open>One guarded \<^verbatim>\<open>newBadges.push(b)\<close>: the list grows at its end when the guard holds.\<close>

definition push_if :: "bool \<Rightarrow> 'a \<Rightarrow> 'a list \<Rightarrow> 'a list" where
  "push_if c b newBadges = (if c then newBadges @ [b] else newBadges)"

definition checkEarnedBadges :: "badge_stats \<Rightarrow> Badge list" where
  "checkEarnedBadges stats =
    (let newBadges = [];
         newBadges = push_if (reports_submitted stats \<ge> 1
             \<and> ''first_report'' \<notin> set (existing_badges stats)) first_report newBadges;
         newBadges = push_if (reports_verified stats \<ge> 5
             \<and> ''verified_5'' \<notin> set (existing_badges stats)) verified_5 newBadges;
         newBadges = push_if (reports_verified stats \<ge> 20
             \<and> ''verified_20'' \<notin> set (existing_badges stats)) verified_20 newBadges;
         newBadges = push_if (reports_verified stats \<ge> 50
             \<and> ''verified_50'' \<notin> set (existing_badges stats)) verified_50 newBadges;
         newBadges = push_if (enforcement_actions stats \<ge> 1
             \<and> ''enforcement_1'' \<notin> set (existing_badges stats)) enforcement_1 newBadges;
         newBadges = push_if (enforcement_actions stats \<ge> 5
             \<and> ''enforcement_5'' \<notin> set (existing_badges stats)) enforcement_5 newBadges;
         newBadges = push_if (water_reports stats \<ge> 10
             \<and> ''water_guardian'' \<notin> set (existing_badges stats)) water_guardian newBadges;
         newBadges = push_if (deforestation_reports stats \<ge> 10
             \<and> ''forest_protector'' \<notin> set (existing_badges stats)) forest_protector newBadges;
         newBadges = push_if (evidence_count stats \<ge> 50
             \<and> ''photo_evidence'' \<notin> set (existing_badges stats)) photo_evidence newBadges;
         newBadges = push_if (voice_reports stats \<ge> 10
             \<and> ''voice_reporter'' \<notin> set (existing_badges stats)) voice_reporter newBadges;
         newBadges = push_if (activity_streak stats \<ge> 7
             \<and> ''streak_7'' \<notin> set (existing_badges stats)) streak_7 newBadges;
         newBadges = push_if (activity_streak stats \<ge> 30
             \<and> ''streak_30'' \<notin> set (existing_badges stats)) streak_30 newBadges;
         newBadges = push_if (is_regional_top stats
             \<and> ''regional_expert'' \<notin> set (existing_badges stats)) regional_expert newBadges
     in newBadges)"

section \<open>Activity points\<close>

datatype ActivityType =
    Report_submitted | Report_verified | Report_rejected | Enforcement_triggered
  | Badge_earned | Rank_promoted | Comment_added | Evidence_uploaded | Alert_subscription

text \<open>The string literal that each member of the union type \<^verbatim>\<open>ActivityType\<close> is.\<close>

fun activity_key :: "ActivityType \<Rightarrow> string" where
  "activity_key Report_submitted = ''report_submitted''"
| "activity_key Report_verified = ''report_verified''"
| "activity_key Report_rejected = ''report_rejected''"
| "activity_key Enforcement_triggered = ''enforcement_triggered''"
| "activity_key Badge_earned = ''badge_earned''"
| "activity_key Rank_promoted = ''rank_promoted''"
| "activity_key Comment_added = ''comment_added''"
| "activity_key Evidence_uploaded = ''evidence_uploaded''"
| "activity_key Alert_subscription = ''alert_subscription''"

text \<open>The object literal \<^verbatim>\<open>ACTIVITY_POINTS\<close>: its own properties, in order.\<close>

definition ACTIVITY_POINTS :: "(string \<times> int) list" where
  "ACTIVITY_POINTS =
     [(''report_submitted'', 5), (''report_verified'', 15), (''report_rejected'', 0),
      (''enforcement_triggered'', 50), (''badge_earned'', 0), (''rank_promoted'', 25),
      (''comment_added'', 2), (''evidence_uploaded'', 5), (''alert_subscription'', 3)]"

text \<open>
  Reading a property of a plain JavaScript object never throws: an own property gives its
  number, a name that \<^verbatim>\<open>Object.prototype\<close> defines gives the inherited member, and every
  other name gives \<^verbatim>\<open>undefined\<close>. The outcome of a call is a sum, \<open>Inl\<close> for a thrown
  error; the source has no \<^verbatim>\<open>throw\<close> on these paths, so none of them produces \<open>Inl\<close>.
\<close>

datatype error = ValidationError | TypeError

datatype js_value = Number int | Inherited | Undefined

definition Object_prototype_keys :: "string list" where
  "Object_prototype_keys =
     [''constructor'', ''hasOwnProperty'', ''isPrototypeOf'', ''propertyIsEnumerable'',
      ''toLocaleString'', ''toString'', ''valueOf'', ''__proto__'', ''__defineGetter__'',
      ''__defineSetter__'', ''__lookupGetter__'', ''__lookupSetter__'']"

definition get_property :: "(string \<times> int) list \<Rightarrow> string \<Rightarrow> js_value" where
  "get_property obj key =
     (case map_of obj key of
        Some n \<Rightarrow> Number n
      | None \<Rightarrow> if key \<in> set Object_prototype_keys then Inherited else Undefined)"

definition activity_points :: "string \<Rightarrow> error + js_value" where
  "activity_points activityType = Inr (get_property ACTIVITY_POINTS activityType)"

section \<open>Environmental impact\<close>

text \<open>
  The argument object of \<^verbatim>\<open>calculateEnvironmentalImpact\<close>; its field
  \<^verbatim>\<open>enforcement_actions\<close> is \<open>impact_enforcement_actions\<close> here, the plain name being a
  field of the badge snapshot.
\<close>

record impact_stats =
  verified_reports :: int
  impact_enforcement_actions :: int
  sites_closed :: int

record environmental_impact =
  hectares_protected :: double
  water_bodies_saved :: double

definition calculateEnvironmentalImpact :: "impact_stats \<Rightarrow> environmental_impact" where
  "calculateEnvironmentalImpact stats =
     (let hectares =
            js_plus (js_plus (js_times (double_of_int (verified_reports stats)) (decimal_literal (1 / 2)))
                       (js_times (double_of_int (impact_enforcement_actions stats))
                              (double_of_int 2)))
                 (js_times (double_of_int (sites_closed stats)) (double_of_int 10));
          water =
            js_plus (Math_floor (js_times (double_of_int (verified_reports stats))
                                    (decimal_literal (1 / 10))))
                 (js_times (double_of_int (sites_closed stats)) (double_of_int 1))
      in \<lparr>hectares_protected =
             js_divide (Math_round (js_times hectares (double_of_int 10))) (double_of_int 10),
           water_bodies_saved = water\<rparr>)"

text \<open>Outcomes of the calls: neither function has a \<^verbatim>\<open>throw\<close>, so every call returns.\<close>

definition call_calculateRank :: "int \<Rightarrow> int \<Rightarrow> error + GuardianRank" where
  "call_calculateRank verifiedReports points = Inr (calculateRank verifiedReports points)"

definition call_calculateEnvironmentalImpact :: "impact_stats \<Rightarrow> error + environmental_impact" where
  "call_calculateEnvironmentalImpact stats = Inr (calculateEnvironmentalImpact stats)"

section \<open>Leaderboard\<close>

text \<open>
  The handler \<^verbatim>\<open>GET /api/guardian/leaderboard\<close>. The tables \<^verbatim>\<open>users\<close> and
  \<^verbatim>\<open>user_activities\<close> are lists of rows with the columns that the queries read; a
  nullable column is an \<open>option\<close> with \<open>None\<close> for \<^verbatim>\<open>NULL\<close>. The column \<^verbatim>\<open>id\<close> is the
  primary key of its table.
\<close>

record user_row =
  u_id :: int
  u_name :: string
  u_display_name :: "string option"
  u_avatar_url :: "string option"
  u_guardian_rank :: "string option"
  u_guardian_points :: "int option"
  u_reports_submitted :: "int option"
  u_reports_verified :: "int option"
  u_enforcement_actions :: "int option"
  u_region :: "string option"
  u_show_on_leaderboard :: "int option"

record activity_row =
  ua_id :: int
  ua_user_id :: int
  ua_activity_type :: string
  ua_points_earned :: "int option"

record database =
  users :: "user_row list"
  user_activities :: "activity_row list"

text \<open>The names of all columns of the two tables, from the schema and its migration.\<close>

definition users_columns :: "string list" where
  "users_columns =
     [''id'', ''email'', ''password_hash'', ''name'', ''role'', ''organization'', ''phone'',
      ''region'', ''avatar_url'', ''verified'', ''email_verified'', ''created_at'',
      ''updated_at'', ''guardian_rank'', ''guardian_points'', ''reports_submitted'',
      ''reports_verified'', ''enforcement_actions'', ''badges'', ''bio'', ''display_name'',
      ''show_on_leaderboard'']"

definition user_activities_columns :: "string list" where
  "user_activities_columns =
     [''id'', ''user_id'', ''activity_type'', ''incident_id'', ''points_earned'',
      ''metadata'', ''created_at'']"

text \<open>
  The search parameters of the request; \<open>None\<close> is an absent parameter. The limit is
  the number that \<^verbatim>\<open>parseInt\<close> reads from the text of the parameter, when there is a
  text and it is not empty: an integer, or \<^verbatim>\<open>NaN\<close> when the text starts with no digit.
\<close>

record search_params =
  param_period :: "string option"
  param_category :: "string option"
  param_region :: "string option"
  param_limit :: "double option"

text \<open>\<^verbatim>\<open>x || d\<close> on a string or \<^verbatim>\<open>null\<close>: the empty string and \<^verbatim>\<open>null\<close> give \<open>d\<close>.\<close>

definition or_default :: "string option \<Rightarrow> string \<Rightarrow> string" where
  "or_default x d = (case x of None \<Rightarrow> d | Some s \<Rightarrow> if s = [] then d else s)"

definition period :: "search_params \<Rightarrow> string" where
  "period params = or_default (param_period params) ''all_time''"

definition category :: "search_params \<Rightarrow> string" where
  "category params = or_default (param_category params) ''points''"

definition region :: "search_params \<Rightarrow> string option" where
  "region params =
     (case param_region params of None \<Rightarrow> None | Some s \<Rightarrow> if s = [] then None else Some s)"

definition limit :: "search_params \<Rightarrow> double" where
  "limit params =
     Math_min (case param_limit params of None \<Rightarrow> double_of_int 25 | Some n \<Rightarrow> n)
       (double_of_int 100)"

text \<open>
  The value bound to \<^verbatim>\<open>LIMIT ?\<close>: an integer is bound as it is; with \<^verbatim>\<open>NaN\<close> or any
  other value that is no integer the query fails.
\<close>

definition bound_limit :: "double \<Rightarrow> int option" where
  "bound_limit l =
     (case l of
        Finite q \<Rightarrow> (if of_int \<lfloor>q\<rfloor> = q then Some \<lfloor>q\<rfloor> else None)
      | _ \<Rightarrow> None)"

text \<open>The column named by \<^verbatim>\<open>orderBy\<close>, and \<^verbatim>\<open>COALESCE(x, d)\<close>.\<close>

definition orderBy :: "string \<Rightarrow> user_row \<Rightarrow> int option" where
  "orderBy cat u =
     (if cat = ''reports'' then u_reports_submitted u
      else if cat = ''verified'' then u_reports_verified u
      else if cat = ''enforcement'' then u_enforcement_actions u
      else u_guardian_points u)"

definition COALESCE :: "'a option \<Rightarrow> 'a \<Rightarrow> 'a" where
  "COALESCE x d = (case x of None \<Rightarrow> d | Some v \<Rightarrow> v)"

text \<open>\<^verbatim>\<open>x > 0\<close> as a condition of a \<^verbatim>\<open>WHERE\<close> clause: not satisfied by \<^verbatim>\<open>NULL\<close>.\<close>

definition positive :: "int option \<Rightarrow> bool" where
  "positive x = (case x of None \<Rightarrow> False | Some n \<Rightarrow> n > 0)"

definition regionFilter :: "string option \<Rightarrow> user_row \<Rightarrow> bool" where
  "regionFilter reg u = (case reg of None \<Rightarrow> True | Some r \<Rightarrow> u_region u = Some r)"

definition all_time_where :: "string \<Rightarrow> string option \<Rightarrow> user_row \<Rightarrow> bool" where
  "all_time_where cat reg u \<longleftrightarrow>
     u_show_on_leaderboard u = Some 1 \<and> regionFilter reg u \<and>
     (positive (orderBy cat u) \<or> positive (u_guardian_points u))"

text \<open>
  The date filter of the query: the text \<^verbatim>\<open>AND created_at >= DATE('now', '-n days')\<close>
  for a week or a month, and no text for every other period.
\<close>

datatype date_filter = No_date_filter | Created_at_since nat

definition dateFilter :: "string \<Rightarrow> date_filter" where
  "dateFilter per =
     (if per = ''weekly'' then Created_at_since 7
      else if per = ''monthly'' then Created_at_since 30
      else No_date_filter)"

definition activityFilter :: "string \<Rightarrow> activity_row \<Rightarrow> bool" where
  "activityFilter cat a =
     (if cat = ''reports'' then ua_activity_type a = ''report_submitted''
      else if cat = ''verified'' then ua_activity_type a = ''report_verified''
      else if cat = ''enforcement'' then ua_activity_type a = ''enforcement_triggered''
      else True)"

text \<open>
  The query over the activity log joins \<^verbatim>\<open>users u\<close> with \<^verbatim>\<open>user_activities ua\<close>. A column
  written without its table must be a column of exactly one of the two: the name
  \<^verbatim>\<open>activity_type\<close> of the activity filter is, the name \<^verbatim>\<open>created_at\<close> of the date filter
  is a column of both, and the database refuses a query with that filter.
\<close>

definition ambiguous :: "string \<Rightarrow> bool" where
  "ambiguous column \<longleftrightarrow> column \<in> set users_columns \<and> column \<in> set user_activities_columns"

definition refused :: "string \<Rightarrow> bool" where
  "refused per =
     (case dateFilter per of
        No_date_filter \<Rightarrow> False
      | Created_at_since days \<Rightarrow> ambiguous ''created_at'')"

text \<open>
  The activities that the \<^verbatim>\<open>LEFT JOIN\<close> of a query without date filter attaches to a
  user, and the aggregated score.
\<close>

definition joined_activities :: "string \<Rightarrow> database \<Rightarrow> user_row \<Rightarrow> activity_row list" where
  "joined_activities cat db u =
     filter (\<lambda>a. u_id u = ua_user_id a \<and> activityFilter cat a) (user_activities db)"

definition aggregated_score :: "string \<Rightarrow> database \<Rightarrow> user_row \<Rightarrow> int" where
  "aggregated_score cat db u =
     (if cat = ''points''
      then sum_list (map (\<lambda>a. COALESCE (ua_points_earned a) 0) (joined_activities cat db u))
      else int (length (joined_activities cat db u)))"

definition aggregated_where :: "string option \<Rightarrow> user_row \<Rightarrow> bool" where
  "aggregated_where reg u \<longleftrightarrow> u_show_on_leaderboard u = Some 1 \<and> regionFilter reg u"

text \<open>
  The users that pass \<^verbatim>\<open>WHERE\<close> (and \<^verbatim>\<open>HAVING score > 0\<close> in the query over the activity
  log), \<open>None\<close> when the database refuses the query; the key of \<^verbatim>\<open>ORDER BY ... DESC\<close>
  (\<^verbatim>\<open>NULL\<close> is the least key, as \<open>None\<close> is); and the selected columns.
\<close>

definition candidates :: "search_params \<Rightarrow> database \<Rightarrow> user_row list option" where
  "candidates params db =
     (if period params = ''all_time''
      then Some (filter (all_time_where (category params) (region params)) (users db))
      else if refused (period params) then None
      else Some (filter (\<lambda>u. aggregated_where (region params) u \<and>
                              aggregated_score (category params) db u > 0) (users db)))"

definition order_key :: "search_params \<Rightarrow> database \<Rightarrow> user_row \<Rightarrow> int option" where
  "order_key params db u =
     (if period params = ''all_time'' then orderBy (category params) u
      else Some (aggregated_score (category params) db u))"

record result_row =
  row_user_id :: int
  row_display_name :: string
  row_avatar_url :: "string option"
  row_guardian_rank :: string
  row_score :: int
  row_region :: "string option"

definition select_row :: "search_params \<Rightarrow> database \<Rightarrow> user_row \<Rightarrow> result_row" where
  "select_row params db u =
     \<lparr>row_user_id = u_id u,
      row_display_name = COALESCE (u_display_name u) (u_name u),
      row_avatar_url = u_avatar_url u,
      row_guardian_rank = COALESCE (u_guardian_rank u) ''observer'',
      row_score =
        (if period params = ''all_time'' then COALESCE (orderBy (category params) u) 0
         else aggregated_score (category params) db u),
      row_region = u_region u\<rparr>"

text \<open>
  \<^verbatim>\<open>ORDER BY key DESC\<close> names no second key: the query asks for an arrangement of the
  rows in which the keys descend, and says nothing of rows with equal keys.
  \<open>order_by_desc key rows out\<close> says that \<open>out\<close> is such an arrangement of \<open>rows\<close>.
  \<^verbatim>\<open>LIMIT n\<close> keeps the first \<open>n\<close> rows, and all of them when \<open>n\<close> is negative.
\<close>

definition order_by_desc :: "('a \<Rightarrow> 'k::linorder) \<Rightarrow> 'a list \<Rightarrow> 'a list \<Rightarrow> bool" where
  "order_by_desc key rows out \<longleftrightarrow>
     mset out = mset rows \<and> sorted_wrt (\<lambda>a b. key b \<le> key a) out"

definition LIMIT :: "int \<Rightarrow> 'a list \<Rightarrow> 'a list" where
  "LIMIT n rows = (if n < 0 then rows else take (nat n) rows)"

text \<open>\<open>answers params db ordered\<close>: the database may sort the rows of the query as \<open>ordered\<close>.\<close>

definition answers :: "search_params \<Rightarrow> database \<Rightarrow> user_row list \<Rightarrow> bool" where
  "answers params db ordered \<longleftrightarrow>
     (case candidates params db of
        None \<Rightarrow> False
      | Some rows \<Rightarrow> order_by_desc (order_key params db) rows ordered)"

record LeaderboardEntry =
  rank :: int
  user_id :: int
  display_name :: string
  avatar_url :: "string option"
  guardian_rank :: string
  score :: int
  entry_region :: "string option"

text \<open>\<^verbatim>\<open>results.map((row, index) => ({rank: index + 1, ...}))\<close>.\<close>

definition add_rank_numbers :: "result_row list \<Rightarrow> LeaderboardEntry list" where
  "add_rank_numbers results =
     map (\<lambda>(index, row).
            \<lparr>rank = int index + 1,
             user_id = row_user_id row,
             display_name = row_display_name row,
             avatar_url = row_avatar_url row,
             guardian_rank = row_guardian_rank row,
             score = row_score row,
             entry_region = row_region row\<rparr>)
         (enumerate 0 results)"

text \<open>
  The handler, for the arrangement \<open>ordered\<close> in which the database sorted the rows
  (\<open>None\<close> when the call fails for a reason of its own). A query that the database
  refuses, a limit that cannot be bound and a failing call are caught and answered with
  status 500; otherwise the answer holds the ranked entries.
\<close>

datatype response = Success "LeaderboardEntry list" | Failed_to_fetch

definition GET :: "search_params \<Rightarrow> database \<Rightarrow> user_row list option \<Rightarrow> response" where
  "GET params db answer =
     (case candidates params db of
        None \<Rightarrow> Failed_to_fetch
      | Some rows \<Rightarrow>
          (case bound_limit (limit params) of
             None \<Rightarrow> Failed_to_fetch
           | Some n \<Rightarrow>
               (case answer of
                  None \<Rightarrow> Failed_to_fetch
                | Some ordered \<Rightarrow>
                    Success (add_rank_numbers (map (select_row params db) (LIMIT n ordered))))))"

section \<open>Example inputs\<close>

text \<open>
  A snapshot that meets every threshold with nothing earned yet, and one that jumps to 20
  verified reports with \<^verbatim>\<open>verified_5\<close> already earned.
\<close>

definition all_qualifying :: badge_stats where
  "all_qualifying =
     \<lparr>reports_submitted = 50, reports_verified = 50, enforcement_actions = 5,
      water_reports = 10, deforestation_reports = 10, evidence_count = 50,
      voice_reports = 10, activity_streak = 30, is_regional_top = True,
      existing_badges = []\<rparr>"

definition verified_jump :: badge_stats where
  "verified_jump =
     \<lparr>reports_submitted = 0, reports_verified = 20, enforcement_actions = 0,
      water_reports = 0, deforestation_reports = 0, evidence_count = 0,
      voice_reports = 0, activity_streak = 0, is_regional_top = False,
      existing_badges = [''verified_5'']\<rparr>"

text \<open>
  Three guardians on the leaderboard, u1 and u2 with 100 points each and u3 with 50, who
  submitted 3, 1 and 0 reports; one logged activity of u1; and the requests for the
  default ranking (all time, by points), for the all-time ranking by reports and for the
  weekly ranking.
\<close>

definition u1 :: user_row where
  "u1 = \<lparr>u_id = 1, u_name = ''u1'', u_display_name = None, u_avatar_url = None,
     u_guardian_rank = None, u_guardian_points = Some 100, u_reports_submitted = Some 3,
     u_reports_verified = Some 0, u_enforcement_actions = Some 0, u_region = None,
     u_show_on_leaderboard = Some 1\<rparr>"

definition u2 :: user_row where
  "u2 = \<lparr>u_id = 2, u_name = ''u2'', u_display_name = None, u_avatar_url = None,
     u_guardian_rank = None, u_guardian_points = Some 100, u_reports_submitted = Some 1,
     u_reports_verified = Some 0, u_enforcement_actions = Some 0, u_region = None,
     u_show_on_leaderboard = Some 1\<rparr>"

definition u3 :: user_row where
  "u3 = \<lparr>u_id = 3, u_name = ''u3'', u_display_name = None, u_avatar_url = None,
     u_guardian_rank = None, u_guardian_points = Some 50, u_reports_submitted = Some 0,
     u_reports_verified = Some 0, u_enforcement_actions = Some 0, u_region = None,
     u_show_on_leaderboard = Some 1\<rparr>"

definition scenario_db :: database where
  "scenario_db =
     \<lparr>users = [u1, u2, u3],
      user_activities =
        [\<lparr>ua_id = 1, ua_user_id = 1, ua_activity_type = ''report_submitted'',
          ua_points_earned = Some 5\<rparr>]\<rparr>"

definition default_params :: search_params where
  "default_params =
     \<lparr>param_period = None, param_category = None, param_region = None, param_limit = None\<rparr>"

definition reports_params :: search_params where
  "reports_params =
     \<lparr>param_period = None, param_category = Some ''reports'', param_region = None,
      param_limit = None\<rparr>"

definition weekly_params :: search_params where
  "weekly_params =
     \<lparr>param_period = Some ''weekly'', param_category = None, param_region = None,
      param_limit = None\<rparr>"


text \<open>
  Two guardians with 10 points each: the one with id 3 has no value in the column
  \<^verbatim>\<open>reports_submitted\<close>, the one with id 5 has the value 0.
\<close>

definition guardian_3 :: user_row where
  "guardian_3 = \<lparr>u_id = 3, u_name = ''ama'', u_display_name = None, u_avatar_url = None,
     u_guardian_rank = None, u_guardian_points = Some 10, u_reports_submitted = None,
     u_reports_verified = Some 0, u_enforcement_actions = Some 0, u_region = None,
     u_show_on_leaderboard = Some 1\<rparr>"

definition guardian_5 :: user_row where
  "guardian_5 = \<lparr>u_id = 5, u_name = ''kofi'', u_display_name = None, u_avatar_url = None,
     u_guardian_rank = None, u_guardian_points = Some 10, u_reports_submitted = Some 0,
     u_reports_verified = Some 0, u_enforcement_actions = Some 0, u_region = None,
     u_show_on_leaderboard = Some 1\<rparr>"

definition null_counter_db :: database where
  "null_counter_db = \<lparr>users = [guardian_3, guardian_5], user_activities = []\<rparr>"

section \<open>Properties of the numbers\<close>

lemma two_powi_pos [simp]: "0 < (2::rat) powi k"
  by (simp add: zero_less_power_int)

lemma two_powi_le: "a \<le> b \<Longrightarrow> (2::rat) powi a \<le> 2 powi b"
  by (rule power_int_increasing) simp_all

lemma two_powi_less: "a < b \<Longrightarrow> (2::rat) powi a < 2 powi b"
  by (rule power_int_strict_increasing) simp_all

lemma two_powi_less_iff: "(2::rat) powi a < 2 powi b \<longleftrightarrow> a < b"
  using two_powi_less [of a b] two_powi_le [of b a] by (cases "a < b") auto

lemma two_powi_le_iff: "(2::rat) powi a \<le> 2 powi b \<longleftrightarrow> a \<le> b"
  using two_powi_le [of a b] two_powi_less [of b a] by (cases "a \<le> b") auto

lemma two_powi_minus: "0 \<le> n \<Longrightarrow> 1 / 2 ^ nat n = (2::rat) powi (- n)"
  by (simp add: power_int_minus power_int_nonneg_exp field_simps)

lemma binary_exponent_bounds:
  assumes "0 < x"
  shows "2 powi binary_exponent x \<le> x" and "x < 2 powi (binary_exponent x + 1)"
proof -
  have "2 powi binary_exponent x \<le> x \<and> x < 2 powi (binary_exponent x + 1)"
  proof (cases "1 \<le> x")
    case True
    define n where "n = \<lfloor>x\<rfloor>"
    have n: "1 \<le> n" "of_int n \<le> x" "x < of_int n + 1"
      using True floor_correct [of x] by (simp_all add: n_def le_floor_iff)
    then have pos: "0 < n" by simp
    from bitlen_bounds [OF pos] have b: "2 ^ nat (bitlen n - 1) \<le> n" "n < 2 ^ nat (bitlen n)"
      by simp_all
    have b1: "1 \<le> bitlen n"
      using pos bitlen_eq_zero_iff [of n] bitlen_nonneg [of n] by linarith
    have k: "binary_exponent x = bitlen n - 1"
      using True by (simp add: binary_exponent_def n_def)
    have "(2::rat) powi (bitlen n - 1) = of_int (2 ^ nat (bitlen n - 1))"
      using b1 by (simp add: power_int_nonneg_exp)
    also have "\<dots> \<le> of_int n" using b(1) by (simp only: of_int_le_iff)
    finally have lo: "2 powi (bitlen n - 1) \<le> x" using n(2) by linarith
    have "of_int n + 1 \<le> (of_int (2 ^ nat (bitlen n)) :: rat)"
      using b(2) by (metis of_int_1 of_int_add of_int_le_iff zless_imp_add1_zle)
    also have "\<dots> = 2 powi (bitlen n - 1 + 1)"
      using b1 by (simp add: power_int_nonneg_exp)
    finally have hi: "x < 2 powi (bitlen n - 1 + 1)" using n(3) by linarith
    from lo hi show ?thesis by (simp only: k)
  next
    case False
    define c where "c = \<lceil>1 / x\<rceil>"
    from False assms have "1 < 1 / x" by simp
    then have c: "1 / x \<le> of_int c" "of_int c - 1 < 1 / x" "2 \<le> c"
      unfolding c_def by (simp_all add: le_of_int_ceiling less_ceiling_iff) linarith+
    then have pos: "0 < c - 1" by simp
    define j where "j = bitlen (c - 1)"
    from bitlen_bounds [OF pos] have b: "2 ^ nat (j - 1) \<le> c - 1" "c - 1 < 2 ^ nat j"
      by (simp_all add: j_def)
    have j1: "1 \<le> j"
      using pos bitlen_eq_zero_iff [of "c - 1"] bitlen_nonneg [of "c - 1"] unfolding j_def by linarith
    have k: "binary_exponent x = - j"
      using False by (simp add: binary_exponent_def c_def j_def)
    have "of_int c \<le> (of_int (2 ^ nat j) :: rat)"
      using b(2) by (simp only: of_int_le_iff)
    moreover have "(of_int (2 ^ nat j) :: rat) = 2 ^ nat j" by simp
    ultimately have "1 / x \<le> 2 ^ nat j" using c(1) by linarith
    then have "1 \<le> 2 ^ nat j * x" using assms by (simp add: field_simps)
    then have lo: "2 powi (- j) \<le> x"
      using j1 by (simp add: power_int_minus power_int_nonneg_exp field_simps)
    have "(of_int (2 ^ nat (j - 1)) :: rat) \<le> of_int (c - 1)"
      using b(1) by (simp only: of_int_le_iff)
    moreover have "(of_int (2 ^ nat (j - 1)) :: rat) = 2 ^ nat (j - 1)" by simp
    moreover have "(of_int (c - 1) :: rat) = of_int c - 1" by simp
    ultimately have "2 ^ nat (j - 1) < 1 / x" using c(2) by linarith
    then have "2 ^ nat (j - 1) * x < 1" using assms by (simp add: field_simps)
    then have "x < 1 / 2 ^ nat (j - 1)" by (simp add: field_simps)
    also have "\<dots> = 2 powi (- (j - 1))"
      using j1 by (intro two_powi_minus) simp
    finally have hi: "x < 2 powi (- j + 1)" by simp
    from lo hi show ?thesis by (simp only: k)
  qed
  then show "2 powi binary_exponent x \<le> x" and "x < 2 powi (binary_exponent x + 1)"
    by simp_all
qed

lemma binary_exponent_eq:
  assumes "2 powi k \<le> x" "x < 2 powi (k + 1)"
  shows "binary_exponent x = k"
proof -
  have pos: "0 < x" using assms(1) two_powi_pos [of k] by linarith
  from binary_exponent_bounds [OF pos] assms
  have "(2::rat) powi binary_exponent x < 2 powi (k + 1)"
    and "(2::rat) powi k < 2 powi (binary_exponent x + 1)"
    by linarith+
  then show ?thesis by (simp add: two_powi_less_iff)
qed


lemma round_half_even_ge: "of_int n \<le> y \<Longrightarrow> n \<le> round_half_even y"
proof -
  assume "of_int n \<le> y"
  then have "n \<le> \<lfloor>y\<rfloor>" by (simp add: le_floor_iff)
  moreover have "\<lfloor>y\<rfloor> \<le> round_half_even y" by (simp add: round_half_even_def Let_def)
  ultimately show ?thesis by linarith
qed

lemma round_half_even_le: "y \<le> of_int n \<Longrightarrow> round_half_even y \<le> n"
proof (cases "y = of_int n")
  case True
  then show ?thesis by (simp add: round_half_even_def)
next
  case False
  assume "y \<le> of_int n"
  with False have "y < of_int n" by simp
  then have "\<lfloor>y\<rfloor> < n" by (simp add: floor_less_iff)
  moreover have "round_half_even y \<le> \<lfloor>y\<rfloor> + 1" by (simp add: round_half_even_def Let_def)
  ultimately show ?thesis by linarith
qed

lemma round_half_even_of_int: "round_half_even (of_int n) = n"
  using round_half_even_ge [of n "of_int n"] round_half_even_le [of "of_int n" n] by simp

lemma round_half_even_near:
  assumes "\<bar>y - of_int n\<bar> < 1 / 2"
  shows "round_half_even y = n"
proof (cases "of_int n \<le> y")
  case True
  with assms have "y < of_int n + 1" by linarith
  with True have f: "\<lfloor>y\<rfloor> = n" by (simp add: floor_unique)
  from assms True have "y - of_int n < 1 / 2" by linarith
  with f show ?thesis by (simp add: round_half_even_def)
next
  case False
  with assms have "of_int (n - 1) \<le> y" "y < of_int (n - 1) + 1" by simp_all
  then have f: "\<lfloor>y\<rfloor> = n - 1" by (rule floor_unique)
  from assms False have "1 / 2 < y - of_int (n - 1)" by simp
  with f show ?thesis by (simp add: round_half_even_def)
qed

lemma round_half_even_tie:
  "round_half_even (of_int n + 1 / 2) = (if even n then n else n + 1)"
proof -
  have "\<lfloor>(of_int n :: rat) + 1 / 2\<rfloor> = n" by (rule floor_unique) simp_all
  then show ?thesis by (simp add: round_half_even_def)
qed


lemma two_powi_split: "(2::rat) powi (a + b) = 2 powi a * 2 powi b"
  by (rule power_int_add) simp

lemma two_powi_of_int: "0 \<le> d \<Longrightarrow> (2::rat) powi d = of_int (2 ^ nat d)"
  by (simp add: power_int_nonneg_exp)

lemma nearest_scaled:
  assumes "2 powi k \<le> x" "x < 2 powi (k + 1)"
  shows "nearest x =
    of_int (round_half_even (x / 2 powi (max (k - 52) (- 1074)))) * 2 powi (max (k - 52) (- 1074))"
  using binary_exponent_eq [OF assms] by (simp add: nearest_def Let_def)

text \<open>
  A number \<open>m * 2 ^ e\<close> with \<open>0 < m < 2 ^ 53\<close> and \<open>e \<ge> -1074\<close> is a double. In the binade
  of \<open>x\<close> and above it is a multiple of the spacing at \<open>x\<close>.
\<close>

lemma scaled_significand:
  assumes m: "0 < m" "m < 2 ^ 53" and e: "- 1074 \<le> e" and r: "(r::rat) = of_int m * 2 powi e"
    and k: "2 powi k \<le> r"
  shows "r / 2 powi (max (k - 52) (- 1074)) =
    of_int (m * 2 ^ nat (e - max (k - 52) (- 1074)))"
proof -
  define E where "E = max (k - 52) (- 1074)"
  have "of_int m < (2::rat) ^ 53" using m(2) by (metis of_int_less_iff of_int_numeral of_int_power)
  then have "of_int m * 2 powi e < (2::rat) powi 53 * 2 powi e" by simp
  then have "r < 2 powi (53 + e)" by (simp only: r two_powi_split)
  with k have "(2::rat) powi k < 2 powi (53 + e)" by linarith
  then have "k - 52 \<le> e" by (simp add: two_powi_less_iff)
  with e have d: "0 \<le> e - E" by (simp add: E_def)
  have "(2::rat) powi e = 2 powi (e - E) * 2 powi E"
    using two_powi_split [of "e - E" E] by simp
  then have "r / 2 powi E = of_int m * 2 powi (e - E)"
    by (simp add: r)
  also have "\<dots> = of_int m * of_int (2 ^ nat (e - E))"
    using d by (simp only: two_powi_of_int)
  finally show ?thesis by (simp add: E_def)
qed

lemma scaled_le:
  assumes "(0::rat) < u" "a / u = of_int i" "(of_int i :: rat) \<le> of_int (j::int)"
  shows "a \<le> of_int j * u"
proof -
  have "a = of_int i * u" using assms(1,2) by (simp add: field_simps)
  then show ?thesis using assms(1,3) by (simp only: mult_le_cancel_right_pos)
qed

lemma scaled_ge:
  assumes "(0::rat) < u" "a / u = of_int i" "(of_int (j::int) :: rat) \<le> of_int i"
  shows "of_int j * u \<le> a"
proof -
  have "a = of_int i * u" using assms(1,2) by (simp add: field_simps)
  then show ?thesis using assms(1,3) by (simp only: mult_le_cancel_right_pos)
qed

lemma nearest_ge:
  assumes m: "0 < m" "m < 2 ^ 53" and e: "- 1074 \<le> e" and r: "r = of_int m * 2 powi e"
    and le: "r \<le> x"
  shows "r \<le> nearest x"
proof -
  have rpos: "0 < r" using m(1) by (simp add: r)
  with le have pos: "0 < x" by linarith
  define k where "k = binary_exponent x"
  define E where "E = max (k - 52) (- 1074)"
  define u :: rat where "u = 2 powi E"
  have upos: "0 < u" by (simp add: u_def)
  have b: "2 powi k \<le> x" "x < 2 powi (k + 1)"
    using binary_exponent_bounds [OF pos] by (simp_all add: k_def)
  have n: "nearest x = of_int (round_half_even (x / u)) * u"
    using nearest_scaled [OF b] by (simp add: u_def E_def)
  show ?thesis
  proof (cases "2 powi k \<le> r")
    case True
    have s: "r / u = of_int (m * 2 ^ nat (e - E))"
      unfolding u_def E_def using m e r True by (rule scaled_significand)
    moreover have "r / u \<le> x / u" using le upos by (simp add: divide_right_mono)
    ultimately have "m * 2 ^ nat (e - E) \<le> round_half_even (x / u)"
      by (intro round_half_even_ge) simp
    then have "(of_int (m * 2 ^ nat (e - E)) :: rat) \<le> of_int (round_half_even (x / u))"
      by (simp only: of_int_le_iff)
    with upos s show ?thesis unfolding n by (rule scaled_le)
  next
    case False
    have "(2::rat) powi e \<le> of_int m * 2 powi e" using m(1) by simp
    with False r have "(2::rat) powi e < 2 powi k" by linarith
    then have "e < k" by (simp add: two_powi_less_iff)
    with e have d: "0 \<le> k - E" by (simp add: E_def)
    have "(2::rat) powi k = 2 powi (k - E) * u"
      using two_powi_split [of "k - E" E] by (simp add: u_def)
    then have s: "2 powi k / u = of_int (2 ^ nat (k - E))"
      using d upos by (simp add: two_powi_of_int)
    moreover have "2 powi k / u \<le> x / u" using b(1) upos by (simp add: divide_right_mono)
    ultimately have "2 ^ nat (k - E) \<le> round_half_even (x / u)"
      by (intro round_half_even_ge) simp
    then have "(of_int (2 ^ nat (k - E)) :: rat) \<le> of_int (round_half_even (x / u))"
      by (simp only: of_int_le_iff)
    with upos s have "2 powi k \<le> nearest x" unfolding n by (rule scaled_le)
    with False show ?thesis by linarith
  qed
qed

lemma nearest_le:
  assumes m: "0 < m" "m < 2 ^ 53" and e: "- 1074 \<le> e" and r: "r = of_int m * 2 powi e"
    and pos: "0 < x" and le: "x \<le> r"
  shows "nearest x \<le> r"
proof -
  define k where "k = binary_exponent x"
  define E where "E = max (k - 52) (- 1074)"
  define u :: rat where "u = 2 powi E"
  have upos: "0 < u" by (simp add: u_def)
  have b: "2 powi k \<le> x" "x < 2 powi (k + 1)"
    using binary_exponent_bounds [OF pos] by (simp_all add: k_def)
  have n: "nearest x = of_int (round_half_even (x / u)) * u"
    using nearest_scaled [OF b] by (simp add: u_def E_def)
  have ur: "u \<le> r"
  proof -
    have "u \<le> 2 powi e"
    proof (cases "k - 52 \<le> - 1074")
      case True
      then have "E = - 1074" by (simp add: E_def)
      with e have "E \<le> e" by simp
      then show ?thesis unfolding u_def by (rule two_powi_le)
    next
      case False
      have "of_int m < (2::rat) ^ 53"
        using m(2) by (metis of_int_less_iff of_int_numeral of_int_power)
      then have "of_int m * 2 powi e < (2::rat) powi 53 * 2 powi e" by simp
      then have "r < 2 powi (53 + e)" by (simp only: r two_powi_split)
      with b(1) le have "(2::rat) powi k < 2 powi (53 + e)" by linarith
      then have "k - 52 \<le> e" by (simp add: two_powi_less_iff)
      with False e have "E \<le> e" by (simp add: E_def)
      then show ?thesis unfolding u_def by (rule two_powi_le)
    qed
    moreover have "(2::rat) powi e \<le> of_int m * 2 powi e" using m(1) by simp
    ultimately show ?thesis using r by linarith
  qed
  show ?thesis
  proof (cases "r < 2 powi (k + 1)")
    case True
    from b(1) le have "2 powi k \<le> r" by linarith
    with m e r have s: "r / u = of_int (m * 2 ^ nat (e - E))"
      unfolding u_def E_def by (rule scaled_significand)
    moreover have "x / u \<le> r / u" using le upos by (simp add: divide_right_mono)
    ultimately have "round_half_even (x / u) \<le> m * 2 ^ nat (e - E)"
      by (intro round_half_even_le) simp
    then have "(of_int (round_half_even (x / u)) :: rat) \<le> of_int (m * 2 ^ nat (e - E))"
      by (simp only: of_int_le_iff)
    with upos s show ?thesis unfolding n by (rule scaled_ge)
  next
    case False
    show ?thesis
    proof (cases "E \<le> k + 1")
      case True
      have "(2::rat) powi (k + 1) = 2 powi (k + 1 - E) * u"
        using two_powi_split [of "k + 1 - E" E] by (simp add: u_def)
      then have s: "2 powi (k + 1) / u = of_int (2 ^ nat (k + 1 - E))"
        using True upos by (simp add: two_powi_of_int)
      moreover have "x / u \<le> 2 powi (k + 1) / u"
        using b(2) upos by (simp add: divide_right_mono)
      ultimately have "round_half_even (x / u) \<le> 2 ^ nat (k + 1 - E)"
        by (intro round_half_even_le) simp
      then have "(of_int (round_half_even (x / u)) :: rat) \<le> of_int (2 ^ nat (k + 1 - E))"
        by (simp only: of_int_le_iff)
      with upos s have "nearest x \<le> 2 powi (k + 1)" unfolding n by (rule scaled_ge)
      with False show ?thesis by linarith
    next
      case False
      then have "k + 1 \<le> E" by simp
      then have "(2::rat) powi (k + 1) \<le> u" unfolding u_def by (rule two_powi_le)
      with b(2) have "x / u \<le> of_int 1" using upos by (simp add: field_simps)
      then have "round_half_even (x / u) \<le> 1" by (rule round_half_even_le)
      then have "(of_int (round_half_even (x / u)) :: rat) \<le> of_int 1"
        by (simp only: of_int_le_iff)
      then have "of_int (round_half_even (x / u)) * u \<le> of_int 1 * u"
        using upos by (simp only: mult_le_cancel_right_pos)
      with ur show ?thesis by (simp add: n)
    qed
  qed
qed

lemma nearest_exact:
  assumes "0 < m" "m < 2 ^ 53" "- 1074 \<le> e"
  shows "nearest (of_int m * 2 powi e) = of_int m * 2 powi e"
proof -
  have "0 < of_int m * (2::rat) powi e" using assms(1) by simp
  then show ?thesis
    using nearest_ge [OF assms refl order_refl] nearest_le [OF assms refl _ order_refl]
    by linarith
qed

lemma nearest_pos: "0 < x \<Longrightarrow> 0 \<le> nearest x"
proof -
  assume "0 < x"
  then have "of_int 0 \<le> x / 2 powi (max (binary_exponent x - 52) (- 1074))" by simp
  then have "0 \<le> round_half_even (x / 2 powi (max (binary_exponent x - 52) (- 1074)))"
    by (rule round_half_even_ge)
  then show ?thesis by (simp add: nearest_def Let_def)
qed

lemma nearest_upper:
  assumes "0 < x" "x \<le> 2 powi j" "- 1074 \<le> j"
  shows "nearest x \<le> 2 powi j"
  using nearest_le [of 1 j "2 powi j" x] assms by simp

lemma two_powi_1024: "(2::rat) ^ 1024 = 2 powi 1024"
  by (simp only: power_int_numeral)

lemma round_to_double_pos:
  assumes "0 < x" "nearest x < 2 powi 1024"
  shows "round_to_double x = Finite (nearest x)"
  using assms unfolding round_to_double_def two_powi_1024 by (simp add: not_le)

lemma round_to_double_neg:
  assumes "x < 0" "nearest (- x) < 2 powi 1024"
  shows "round_to_double x = Finite (- nearest (- x))"
  using assms unfolding round_to_double_def two_powi_1024 by (simp add: not_le)

lemma round_to_double_0 [simp]: "round_to_double 0 = Finite 0"
  by (simp add: round_to_double_def)

lemma round_to_double_not_NaN [simp]: "round_to_double x \<noteq> NaN"
  by (simp add: round_to_double_def)

text \<open>A double is rounded to itself.\<close>

lemma round_to_double_exact:
  assumes m: "\<bar>m\<bar> < 2 ^ 53" and e: "- 1074 \<le> e"
    and b: "\<bar>of_int m * 2 powi e\<bar> < (2::rat) powi 1024"
  shows "round_to_double (of_int m * 2 powi e) = Finite (of_int m * 2 powi e)"
proof -
  define x :: rat where "x = of_int m * 2 powi e"
  consider "m = 0" | "0 < m" | "m < 0" by linarith
  then have "round_to_double x = Finite x"
  proof cases
    case 1
    then show ?thesis by (simp add: x_def)
  next
    case 2
    from m 2 have m2: "m < 2 ^ 53" by linarith
    have n: "nearest x = x" unfolding x_def using 2 m2 e by (rule nearest_exact)
    have pos: "0 < x" using 2 by (simp add: x_def)
    from b pos have "x < 2 powi 1024" unfolding x_def by linarith
    then have "nearest x < 2 powi 1024" by (simp only: n)
    with pos have "round_to_double x = Finite (nearest x)" by (rule round_to_double_pos)
    then show ?thesis by (simp only: n)
  next
    case 3
    then have p: "0 < - m" by simp
    from m 3 have m2: "- m < 2 ^ 53" by linarith
    have mx: "- x = of_int (- m) * 2 powi e" by (simp add: x_def)
    have n: "nearest (- x) = - x" unfolding mx using p m2 e by (rule nearest_exact)
    have "0 < of_int (- m) * (2::rat) powi e" using p by (simp del: of_int_minus)
    then have neg: "x < 0" using mx by linarith
    from b neg have "- x < 2 powi 1024" unfolding x_def by linarith
    then have "nearest (- x) < 2 powi 1024" by (simp only: n)
    with neg have "round_to_double x = Finite (- nearest (- x))" by (rule round_to_double_neg)
    then show ?thesis by (simp only: n minus_minus)
  qed
  then show ?thesis by (simp only: x_def)
qed

lemma round_to_double_int:
  assumes "\<bar>n\<bar> < 2 ^ 53"
  shows "round_to_double (of_int n) = Finite (of_int n)"
proof -
  have "\<bar>of_int n\<bar> < (2::rat) ^ 53"
    using assms by (metis of_int_abs of_int_less_iff of_int_numeral of_int_power)
  also have "(2::rat) ^ 53 = 2 powi 53" by (simp only: power_int_numeral)
  also have "(2::rat) powi 53 < 2 powi 1024" by (rule two_powi_less) simp
  finally show ?thesis
    using round_to_double_exact [of n 0] assms by simp
qed

lemma round_to_double_half:
  assumes "\<bar>n\<bar> < 2 ^ 53"
  shows "round_to_double (of_int n / 2) = Finite (of_int n / 2)"
proof -
  have h: "(of_int n / 2 :: rat) = of_int n * 2 powi (- 1)" by simp
  have "\<bar>of_int n\<bar> < (2::rat) ^ 53"
    using assms by (metis of_int_abs of_int_less_iff of_int_numeral of_int_power)
  then have "\<bar>of_int n / 2\<bar> < (2::rat) ^ 53" by simp
  also have "(2::rat) ^ 53 = 2 powi 53" by (simp only: power_int_numeral)
  also have "(2::rat) powi 53 < 2 powi 1024" by (rule two_powi_less) simp
  finally show ?thesis
    unfolding h using round_to_double_exact [of n "- 1"] assms by simp
qed

lemma double_of_int_exact: "\<bar>n\<bar> < 2 ^ 53 \<Longrightarrow> double_of_int n = Finite (of_int n)"
  by (simp add: double_of_int_def round_to_double_int)

text \<open>Rounding crosses no double: bounds of \<open>x\<close> that are doubles bound the rounded \<open>x\<close>.\<close>

lemma round_to_double_le:
  assumes m: "0 < m" "m < 2 ^ 53" and e: "- 1074 \<le> e" and r: "r = of_int m * 2 powi e"
    and b: "r < 2 powi 1024" and x: "0 < x" "x \<le> r"
  shows "\<exists>q. round_to_double x = Finite q \<and> 0 \<le> q \<and> q \<le> r"
proof -
  have "nearest x \<le> r" using m e r x by (rule nearest_le)
  moreover have "0 \<le> nearest x" using x(1) by (rule nearest_pos)
  ultimately show ?thesis using b x(1) by (simp add: round_to_double_pos)
qed

lemma round_to_double_ge:
  assumes m: "0 < m" "m < 2 ^ 53" and e: "- 1074 \<le> e" and r: "r = of_int m * 2 powi e"
    and x: "r \<le> x"
  shows "round_to_double x = PosInfinity \<or> (\<exists>q. round_to_double x = Finite q \<and> r \<le> q)"
proof -
  have "r \<le> nearest x" using m e r x by (rule nearest_ge)
  moreover have "0 < r" using m(1) by (simp add: r)
  ultimately show ?thesis using x by (auto simp: round_to_double_def)
qed

lemma round_to_double_between:
  assumes m: "0 < m" "m < 2 ^ 53" and e: "- 1074 \<le> e" and r: "r = of_int m * 2 powi e"
    and m': "0 < m'" "m' < 2 ^ 53" and e': "- 1074 \<le> e'" and r': "r' = of_int m' * 2 powi e'"
    and b: "r' < 2 powi 1024" and x: "r \<le> x" "x \<le> r'"
  shows "\<exists>q. round_to_double x = Finite q \<and> r \<le> q \<and> q \<le> r'"
proof -
  have "0 < r" using m(1) by (simp add: r)
  with x have pos: "0 < x" by linarith
  from round_to_double_le [OF m' e' r' b pos x(2)]
  obtain q where q: "round_to_double x = Finite q" "q \<le> r'" by blast
  with round_to_double_ge [OF m e r x(1)] show ?thesis by auto
qed

text \<open>Rounding a number that is less than half a spacing away from a double, or halfway.\<close>

lemma round_to_double_near:
  assumes k: "2 powi k \<le> x" "x < 2 powi (k + 1)" "- 1075 \<le> k" "k < 1023"
    and n: "\<bar>x / 2 powi (max (k - 52) (- 1074)) - of_int n\<bar> < 1 / 2"
  shows "round_to_double x = Finite (of_int n * 2 powi (max (k - 52) (- 1074)))"
proof -
  have pos: "0 < x" using k(1) two_powi_pos [of k] by linarith
  have "nearest x \<le> 2 powi (k + 1)" using pos k by (intro nearest_upper) simp_all
  also have "(2::rat) powi (k + 1) < 2 powi 1024" using k(4) by (intro two_powi_less) simp
  finally have "round_to_double x = Finite (nearest x)" using pos by (simp add: round_to_double_pos)
  then show ?thesis
    using nearest_scaled [OF k(1,2)] round_half_even_near [OF n] by simp
qed

lemma round_to_double_tie:
  assumes k: "2 powi k \<le> x" "x < 2 powi (k + 1)" "- 1075 \<le> k" "k < 1023"
    and n: "x / 2 powi (max (k - 52) (- 1074)) = of_int n + 1 / 2"
  shows "round_to_double x =
    Finite (of_int (if even n then n else n + 1) * 2 powi (max (k - 52) (- 1074)))"
proof -
  have pos: "0 < x" using k(1) two_powi_pos [of k] by linarith
  have "nearest x \<le> 2 powi (k + 1)" using pos k by (intro nearest_upper) simp_all
  also have "(2::rat) powi (k + 1) < 2 powi 1024" using k(4) by (intro two_powi_less) simp
  finally have "round_to_double x = Finite (nearest x)" using pos by (simp add: round_to_double_pos)
  then show ?thesis
    using nearest_scaled [OF k(1,2)] round_half_even_tie [of n] by (simp only: n)
qed

lemma round_to_double_near_neg:
  assumes k: "2 powi k \<le> - x" "- x < 2 powi (k + 1)" "- 1075 \<le> k" "k < 1023"
    and n: "\<bar>- x / 2 powi (max (k - 52) (- 1074)) - of_int n\<bar> < 1 / 2"
  shows "round_to_double x = Finite (- (of_int n * 2 powi (max (k - 52) (- 1074))))"
proof -
  have pos: "0 < - x" using k(1) two_powi_pos [of k] by linarith
  have "nearest (- x) \<le> 2 powi (k + 1)" using pos k by (intro nearest_upper) simp_all
  also have "(2::rat) powi (k + 1) < 2 powi 1024" using k(4) by (intro two_powi_less) simp
  finally have "round_to_double x = Finite (- nearest (- x))"
    using pos by (simp add: round_to_double_neg)
  then show ?thesis
    using nearest_scaled [OF k(1,2)] round_half_even_near [OF n] by simp
qed

lemma js_times_Finite: "js_times (Finite x) (Finite y) = round_to_double (x * y)"
  by (simp add: js_times_def)

lemma js_plus_Finite: "js_plus (Finite x) (Finite y) = round_to_double (x + y)"
  by (simp add: js_plus_def)

lemma js_divide_Finite: "y \<noteq> 0 \<Longrightarrow> js_divide (Finite x) (Finite y) = round_to_double (x / y)"
  by (simp add: js_divide_def)

lemma Math_floor_Finite: "Math_floor (Finite x) = Finite (of_int \<lfloor>x\<rfloor>)"
  by (simp add: Math_floor_def)

lemma Math_round_of_int: "Math_round (Finite (of_int n)) = Finite (of_int n)"
proof -
  have "\<lfloor>(of_int n :: rat) + 1 / 2\<rfloor> = n" by (rule floor_unique) simp_all
  then show ?thesis by (simp add: Math_round_def)
qed

lemma decimal_one_half: "decimal_literal (1 / 2) = Finite (1 / 2)"
  using round_to_double_half [of 1] by (simp add: decimal_literal_def)

lemma decimal_one_tenth:
  "decimal_literal (1 / 10) = Finite (3602879701896397 / 36028797018963968)"
  using round_to_double_near [of "- 4" "1 / 10" 7205759403792794]
  by (simp add: decimal_literal_def)

section \<open>Properties of rank resolution\<close>

lemma rank_position_simps:
  "rank_position Observer = 0" "rank_position Bronze = 1" "rank_position Silver = 2"
  "rank_position Gold = 3" "rank_position Diamond = 4"
  by (simp_all add: rank_position_def ranks_def)

lemma calculateRank_meets:
  "0 \<le> v \<Longrightarrow> 0 \<le> p \<Longrightarrow> meets_requirements (calculateRank v p) v p"
  by (simp add: calculateRank_def meets_requirements_def)

lemma calculateRank_highest:
  "meets_requirements r v p \<Longrightarrow> rank_position r \<le> rank_position (calculateRank v p)"
  by (cases r) (auto simp: calculateRank_def meets_requirements_def rank_position_simps)

text \<open>
  C1. Rank resolution is conjunctive on both thresholds: for non-negative verified reports
  and points, \<open>calculateRank\<close> returns a rank whose two thresholds of \<open>RANK_REQUIREMENTS\<close>
  are both met, and no rank higher in the ladder has both thresholds met; so
  \<open>calculateRank 5 50\<close> is bronze, \<open>calculateRank 5 49\<close> is observer, and with fewer than 5
  verified reports the rank is observer whatever the points.
\<close>

theorem calculateRank_conjunctive:
  "(0 \<le> v \<and> 0 \<le> p \<longrightarrow>
      meets_requirements (calculateRank v p) v p \<and>
      (\<forall>r. meets_requirements r v p \<longrightarrow> rank_position r \<le> rank_position (calculateRank v p)))
   \<and> calculateRank 5 50 = Bronze
   \<and> calculateRank 5 49 = Observer
   \<and> (0 \<le> v \<and> v < 5 \<longrightarrow> calculateRank v p = Observer)"
proof -
  have "calculateRank 5 50 = Bronze" "calculateRank 5 49 = Observer"
    by (simp_all add: calculateRank_def)
  moreover have "0 \<le> v \<and> v < 5 \<longrightarrow> calculateRank v p = Observer"
    by (simp add: calculateRank_def)
  ultimately show ?thesis
    using calculateRank_meets [of v p] calculateRank_highest [of _ v p] by blast
qed

theorem calculateRank_conjunctive_witness:
  "(0::int) \<le> 20 \<and> (0::int) \<le> 1000000 \<and> (0::int) \<le> 4
   \<and> meets_requirements (calculateRank 20 1000000) 20 1000000
   \<and> meets_requirements Silver 20 1000000
   \<and> rank_position Silver \<le> rank_position (calculateRank 20 1000000)
   \<and> calculateRank 20 1000000 = Silver
   \<and> calculateRank 4 1000000 = Observer"
proof -
  have m: "meets_requirements Silver 20 1000000"
    by (simp add: meets_requirements_def)
  have s: "calculateRank 20 1000000 = Silver"
    by (simp add: calculateRank_def)
  show ?thesis
    using calculateRank_conjunctive [of 20 1000000] calculateRank_conjunctive [of 4 1000000] m s
    by simp
qed

text \<open>
  C8. Rank resolution is monotone in both dimensions: if \<open>v1 \<le> v2\<close> and \<open>p1 \<le> p2\<close> then
  the rank resolved for \<open>(v1, p1)\<close> is at most the rank resolved for \<open>(v2, p2)\<close> in the
  order observer, bronze, silver, gold, diamond.
\<close>

theorem calculateRank_monotone:
  "v1 \<le> v2 \<Longrightarrow> p1 \<le> p2 \<Longrightarrow>
   rank_position (calculateRank v1 p1) \<le> rank_position (calculateRank v2 p2)"
  by (simp add: calculateRank_def rank_position_simps)

theorem calculateRank_monotone_witness:
  "(5::int) \<le> 50 \<and> (50::int) \<le> 500
   \<and> rank_position (calculateRank 5 50) \<le> rank_position (calculateRank 50 500)
   \<and> calculateRank 5 50 = Bronze \<and> calculateRank 50 500 = Gold"
  using calculateRank_monotone [of 5 50 50 500] by (simp add: calculateRank_def)

text \<open>The progress towards the next rank.\<close>

lemma Finite_100: "double_of_int 100 = Finite 100"
  using double_of_int_exact [of 100] by simp

lemma double_of_int_cases:
  "double_of_int v = PosInfinity \<or> double_of_int v = NegInfinity \<or> (\<exists>q. double_of_int v = Finite q)"
  using round_to_double_not_NaN [of "of_int v"] by (cases "double_of_int v") (simp_all add: double_of_int_def)

lemma js_le_Math_min:
  assumes "y \<noteq> NaN"
  shows "js_le (Math_min (Finite c) y) (Finite c)"
  using assms by (cases y) (simp_all add: Math_min_def js_le_def)

lemma js_divide_not_NaN:
  assumes "a \<noteq> NaN" "y \<noteq> 0"
  shows "js_divide a (Finite y) \<noteq> NaN"
  using assms by (cases a) (simp_all add: js_divide_def infinity_of_def sign_of_def)

lemma js_times_not_NaN:
  assumes "a \<noteq> NaN" "y \<noteq> 0"
  shows "js_times a (Finite y) \<noteq> NaN"
  using assms by (cases a) (simp_all add: js_times_def infinity_of_def sign_of_def)

text \<open>The progress towards a threshold \<open>m\<close>, as the source computes it.\<close>

lemma progress_at_most:
  assumes "1 \<le> m" "m \<le> 1024"
  shows "js_le (Math_min (double_of_int 100)
           (js_times (js_divide (double_of_int v) (double_of_int m)) (double_of_int 100)))
         (Finite 100)"
proof -
  have m: "double_of_int m = Finite (of_int m)" using assms by (intro double_of_int_exact) simp
  have "double_of_int v \<noteq> NaN" by (simp add: double_of_int_def)
  then have "js_divide (double_of_int v) (Finite (of_int m)) \<noteq> NaN"
    using assms(1) by (intro js_divide_not_NaN) simp_all
  then have "js_times (js_divide (double_of_int v) (Finite (of_int m))) (Finite 100) \<noteq> NaN"
    by (intro js_times_not_NaN) simp_all
  then show ?thesis unfolding Finite_100 m by (rule js_le_Math_min)
qed

lemma progress_complete:
  assumes "1 \<le> m" "m \<le> 1024" "m \<le> v"
  shows "Math_min (double_of_int 100)
           (js_times (js_divide (double_of_int v) (double_of_int m)) (double_of_int 100))
         = Finite 100"
proof -
  have m: "double_of_int m = Finite (of_int m)" using assms by (intro double_of_int_exact) simp
  have mpos: "(0::rat) < of_int m" using assms(1) by simp
  have "(of_int m :: rat) \<le> of_int v" using assms(3) by simp
  with assms have v: "double_of_int v = PosInfinity \<or>
      (\<exists>q. double_of_int v = Finite q \<and> of_int m \<le> q)"
    unfolding double_of_int_def by (intro round_to_double_ge [of m 0]) simp_all
  have d: "js_divide (double_of_int v) (Finite (of_int m)) = PosInfinity \<or>
      (\<exists>q. js_divide (double_of_int v) (Finite (of_int m)) = Finite q \<and> 1 \<le> q)"
  proof -
    from v consider "double_of_int v = PosInfinity"
      | q where "double_of_int v = Finite q" "of_int m \<le> q" by blast
    then show ?thesis
    proof cases
      case 1
      with mpos show ?thesis by (simp add: js_divide_def infinity_of_def sign_of_def)
    next
      case 2
      with mpos have "1 \<le> q / of_int m" by simp
      then have "round_to_double (q / of_int m) = PosInfinity \<or>
          (\<exists>q'. round_to_double (q / of_int m) = Finite q' \<and> 1 \<le> q')"
        by (intro round_to_double_ge [of 1 0]) simp_all
      with 2 mpos show ?thesis by (simp add: js_divide_def)
    qed
  qed
  have t: "js_times (js_divide (double_of_int v) (Finite (of_int m))) (Finite 100) = PosInfinity \<or>
      (\<exists>q. js_times (js_divide (double_of_int v) (Finite (of_int m))) (Finite 100) = Finite q
           \<and> 100 \<le> q)"
  proof -
    from d consider "js_divide (double_of_int v) (Finite (of_int m)) = PosInfinity"
      | q where "js_divide (double_of_int v) (Finite (of_int m)) = Finite q" "1 \<le> q" by blast
    then show ?thesis
    proof cases
      case 1
      then show ?thesis by (simp add: js_times_def infinity_of_def sign_of_def)
    next
      case 2
      then have "of_int 100 * 2 powi 0 \<le> q * 100" by simp
      then have "round_to_double (q * 100) = PosInfinity \<or>
          (\<exists>q'. round_to_double (q * 100) = Finite q' \<and> of_int 100 * 2 powi 0 \<le> q')"
        by (intro round_to_double_ge [of 100 0]) simp_all
      with 2 show ?thesis by (simp add: js_times_def)
    qed
  qed
  from t show ?thesis unfolding Finite_100 m by (auto simp: Math_min_def min_def)
qed

lemma progress_partial:
  assumes "1 \<le> m" "m \<le> 1024" "0 \<le> v" "v < m"
  shows "\<exists>q. Math_min (double_of_int 100)
           (js_times (js_divide (double_of_int v) (double_of_int m)) (double_of_int 100))
         = Finite q \<and> 0 \<le> q \<and> q < 100"
proof -
  have m: "double_of_int m = Finite (of_int m)" using assms by (intro double_of_int_exact) simp
  have v: "double_of_int v = Finite (of_int v)" using assms by (intro double_of_int_exact) simp
  have mpos: "(0::rat) < of_int m" using assms(1) by simp
  have "\<exists>q. round_to_double (of_int v / of_int m) = Finite q \<and> 0 \<le> q \<and> q \<le> 1023 / 1024"
  proof (cases "v = 0")
    case True
    then show ?thesis by simp
  next
    case False
    with assms have pos: "(0::rat) < of_int v / of_int m" by simp
    have "of_int v + 1 \<le> (of_int m :: rat)"
      using assms(4) by (metis of_int_1 of_int_add of_int_le_iff zless_imp_add1_zle)
    moreover have "(of_int m :: rat) \<le> 1024"
      using assms(2) by (metis of_int_le_iff of_int_numeral)
    ultimately have "(of_int v :: rat) * 1024 \<le> 1023 * of_int m" by linarith
    with mpos have "of_int v / of_int m \<le> (1023 / 1024 :: rat)" by (simp add: field_simps)
    then have "of_int v / of_int m \<le> (of_int 1023 * 2 powi (- 10) :: rat)" by simp
    from round_to_double_le [OF _ _ _ refl _ pos this] show ?thesis by simp
  qed
  then obtain q where q: "round_to_double (of_int v / of_int m) = Finite q" "0 \<le> q"
    "q \<le> 1023 / 1024" by blast
  have "\<exists>q'. round_to_double (q * 100) = Finite q' \<and> 0 \<le> q' \<and> q' \<le> 1599 / 16"
  proof (cases "q = 0")
    case True
    then show ?thesis by simp
  next
    case False
    with q(2) have pos: "0 < q * 100" by simp
    from q(3) have "q * 100 \<le> (of_int 1599 * 2 powi (- 4) :: rat)" by simp
    from round_to_double_le [OF _ _ _ refl _ pos this] show ?thesis by simp
  qed
  then obtain q' where q': "round_to_double (q * 100) = Finite q'" "0 \<le> q'" "q' \<le> 1599 / 16"
    by blast
  have "Math_min (Finite 100) (js_times (js_divide (Finite (of_int v)) (Finite (of_int m)))
      (Finite 100)) = Finite q'"
    using mpos q(1) q' by (simp add: js_divide_def js_times_def Math_min_def min_def)
  with q' show ?thesis unfolding Finite_100 m v by auto
qed

lemma getRankProgress_below_diamond:
  assumes "currentRank \<noteq> Diamond"
  shows "\<exists>next.
    getRankProgress currentRank v p =
      \<lparr>nextRank = Some next,
       verifiedProgress =
         Math_min (double_of_int 100)
           (js_times (js_divide (double_of_int v)
              (double_of_int (min_verified (RANK_REQUIREMENTS next)))) (double_of_int 100)),
       pointsProgress =
         Math_min (double_of_int 100)
           (js_times (js_divide (double_of_int p)
              (double_of_int (min_points (RANK_REQUIREMENTS next)))) (double_of_int 100))\<rparr>
    \<and> rank_position next = rank_position currentRank + 1
    \<and> 1 \<le> min_verified (RANK_REQUIREMENTS next) \<and> min_verified (RANK_REQUIREMENTS next) \<le> 1024
    \<and> 1 \<le> min_points (RANK_REQUIREMENTS next) \<and> min_points (RANK_REQUIREMENTS next) \<le> 1024"
  using assms
  by (cases currentRank)
    (simp_all add: getRankProgress_def ranks_def Let_def rank_position_simps)

lemma getRankProgress_nextRank:
  "nextRank (getRankProgress Observer v p) = Some Bronze"
  "nextRank (getRankProgress Bronze v p) = Some Silver"
  "nextRank (getRankProgress Silver v p) = Some Gold"
  "nextRank (getRankProgress Gold v p) = Some Diamond"
  by (simp_all add: getRankProgress_def ranks_def Let_def)

lemma progress_value:
  assumes "double_of_int v = Finite a" "double_of_int m = Finite b" "b \<noteq> 0"
    and "round_to_double (a / b) = Finite c" "round_to_double (c * 100) = Finite d"
  shows "Math_min (double_of_int 100)
           (js_times (js_divide (double_of_int v) (double_of_int m)) (double_of_int 100))
         = Finite (min 100 d)"
  using assms by (simp add: Finite_100 js_divide_def js_times_def Math_min_def)

lemma one_fifth: "round_to_double (1 / 5) = Finite (3602879701896397 / 18014398509481984)"
  using round_to_double_near [of "- 3" "1 / 5" 7205759403792794] by simp

lemma ten_fiftieths: "round_to_double (10 / 50) = Finite (3602879701896397 / 18014398509481984)"
  using round_to_double_near [of "- 3" "10 / 50" 7205759403792794] by simp

lemma one_fifth_percent:
  "round_to_double (3602879701896397 / 18014398509481984 * 100) = Finite 20"
  using round_to_double_near [of 4 "3602879701896397 / 18014398509481984 * 100" 5629499534213120]
  by simp

lemma twenty_nine_fiftieths:
  "round_to_double (29 / 50) = Finite (5224175567749775 / 9007199254740992)"
  using round_to_double_near [of "- 1" "29 / 50" 5224175567749775] by simp

lemma twenty_nine_fiftieths_percent:
  "round_to_double (5224175567749775 / 9007199254740992 * 100) =
     Finite (8162774324609023 / 140737488355328)"
  using round_to_double_near [of 5 "5224175567749775 / 9007199254740992 * 100" 8162774324609023]
  by simp

lemma small_ints:
  "double_of_int 1 = Finite 1" "double_of_int 5 = Finite 5" "double_of_int 10 = Finite 10"
  "double_of_int 29 = Finite 29" "double_of_int 50 = Finite 50"
  using double_of_int_exact [of 1] double_of_int_exact [of 5] double_of_int_exact [of 10]
    double_of_int_exact [of 29] double_of_int_exact [of 50]
  by simp_all

lemma progress_1_of_5:
  "Math_min (double_of_int 100)
     (js_times (js_divide (double_of_int 1) (double_of_int 5)) (double_of_int 100)) = Finite 20"
  using progress_value [OF small_ints(1) small_ints(2) _ one_fifth one_fifth_percent] by simp

lemma progress_10_of_50:
  "Math_min (double_of_int 100)
     (js_times (js_divide (double_of_int 10) (double_of_int 50)) (double_of_int 100)) = Finite 20"
  using progress_value [OF small_ints(3) small_ints(5) _ ten_fiftieths one_fifth_percent] by simp

lemma progress_29_of_50:
  "Math_min (double_of_int 100)
     (js_times (js_divide (double_of_int 29) (double_of_int 50)) (double_of_int 100)) =
   Finite (8162774324609023 / 140737488355328)"
  using progress_value [OF small_ints(4) small_ints(5) _ twenty_nine_fiftieths
      twenty_nine_fiftieths_percent]
  by simp

text \<open>
  C10. For every current rank strictly below diamond, \<open>getRankProgress\<close> returns as
  \<open>nextRank\<close> the immediate successor of the rank passed in, whatever the supplied
  statistics. Each progress value is at most 100; it is 100 when the statistic meets
  the threshold of the next rank, and a number from 0 to below 100 when the statistic is
  not negative and below that threshold. For instance \<open>getRankProgress observer 100 1000\<close>
  is \<open>{nextRank: bronze, 100, 100}\<close>, \<open>getRankProgress observer 1 10\<close> is
  \<open>{nextRank: bronze, 20, 20}\<close>, and \<open>getRankProgress observer 1 29\<close> has the points
  progress 57.99999999999999, the double \<open>8162774324609023 / 2 ^ 47\<close>.
\<close>

theorem getRankProgress_next:
  "(currentRank \<noteq> Diamond \<longrightarrow>
      (\<exists>next. nextRank (getRankProgress currentRank v p) = Some next
         \<and> rank_position next = rank_position currentRank + 1
         \<and> (min_verified (RANK_REQUIREMENTS next) \<le> v \<longrightarrow>
              verifiedProgress (getRankProgress currentRank v p) = Finite 100)
         \<and> (0 \<le> v \<and> v < min_verified (RANK_REQUIREMENTS next) \<longrightarrow>
              (\<exists>q. verifiedProgress (getRankProgress currentRank v p) = Finite q
                    \<and> 0 \<le> q \<and> q < 100))
         \<and> (min_points (RANK_REQUIREMENTS next) \<le> p \<longrightarrow>
              pointsProgress (getRankProgress currentRank v p) = Finite 100)
         \<and> (0 \<le> p \<and> p < min_points (RANK_REQUIREMENTS next) \<longrightarrow>
              (\<exists>q. pointsProgress (getRankProgress currentRank v p) = Finite q
                    \<and> 0 \<le> q \<and> q < 100)))
      \<and> js_le (verifiedProgress (getRankProgress currentRank v p)) (Finite 100)
      \<and> js_le (pointsProgress (getRankProgress currentRank v p)) (Finite 100))
   \<and> nextRank (getRankProgress Observer v p) = Some Bronze
   \<and> nextRank (getRankProgress Bronze v p) = Some Silver
   \<and> nextRank (getRankProgress Silver v p) = Some Gold
   \<and> nextRank (getRankProgress Gold v p) = Some Diamond
   \<and> getRankProgress Observer 100 1000 =
       \<lparr>nextRank = Some Bronze, verifiedProgress = Finite 100, pointsProgress = Finite 100\<rparr>
   \<and> getRankProgress Observer 1 10 =
       \<lparr>nextRank = Some Bronze, verifiedProgress = Finite 20, pointsProgress = Finite 20\<rparr>
   \<and> getRankProgress Observer 1 29 =
       \<lparr>nextRank = Some Bronze, verifiedProgress = Finite 20,
        pointsProgress = Finite (8162774324609023 / 140737488355328)\<rparr>"
proof -
  have general: "(\<exists>next. nextRank (getRankProgress currentRank v p) = Some next
         \<and> rank_position next = rank_position currentRank + 1
         \<and> (min_verified (RANK_REQUIREMENTS next) \<le> v \<longrightarrow>
              verifiedProgress (getRankProgress currentRank v p) = Finite 100)
         \<and> (0 \<le> v \<and> v < min_verified (RANK_REQUIREMENTS next) \<longrightarrow>
              (\<exists>q. verifiedProgress (getRankProgress currentRank v p) = Finite q
                    \<and> 0 \<le> q \<and> q < 100))
         \<and> (min_points (RANK_REQUIREMENTS next) \<le> p \<longrightarrow>
              pointsProgress (getRankProgress currentRank v p) = Finite 100)
         \<and> (0 \<le> p \<and> p < min_points (RANK_REQUIREMENTS next) \<longrightarrow>
              (\<exists>q. pointsProgress (getRankProgress currentRank v p) = Finite q
                    \<and> 0 \<le> q \<and> q < 100)))
      \<and> js_le (verifiedProgress (getRankProgress currentRank v p)) (Finite 100)
      \<and> js_le (pointsProgress (getRankProgress currentRank v p)) (Finite 100)"
    if "currentRank \<noteq> Diamond"
  proof -
    from getRankProgress_below_diamond [OF that, of v p] obtain "next" where
      g: "getRankProgress currentRank v p =
      \<lparr>nextRank = Some next,
       verifiedProgress =
         Math_min (double_of_int 100)
           (js_times (js_divide (double_of_int v)
              (double_of_int (min_verified (RANK_REQUIREMENTS next)))) (double_of_int 100)),
       pointsProgress =
         Math_min (double_of_int 100)
           (js_times (js_divide (double_of_int p)
              (double_of_int (min_points (RANK_REQUIREMENTS next)))) (double_of_int 100))\<rparr>"
      and pos: "rank_position next = rank_position currentRank + 1"
      and mv: "1 \<le> min_verified (RANK_REQUIREMENTS next)"
        "min_verified (RANK_REQUIREMENTS next) \<le> 1024"
      and mp: "1 \<le> min_points (RANK_REQUIREMENTS next)"
        "min_points (RANK_REQUIREMENTS next) \<le> 1024"
      by blast
    show ?thesis
      unfolding g rank_progress.simps
      using pos progress_complete [OF mv] progress_partial [OF mv] progress_at_most [OF mv]
        progress_complete [OF mp] progress_partial [OF mp] progress_at_most [OF mp]
      by blast
  qed
  have ex1: "getRankProgress Observer 100 1000 =
       \<lparr>nextRank = Some Bronze, verifiedProgress = Finite 100, pointsProgress = Finite 100\<rparr>"
    using progress_complete [of 5 100] progress_complete [of 50 1000]
    by (simp add: getRankProgress_def ranks_def Let_def)
  have ex2: "getRankProgress Observer 1 10 =
       \<lparr>nextRank = Some Bronze, verifiedProgress = Finite 20, pointsProgress = Finite 20\<rparr>"
    by (simp add: getRankProgress_def ranks_def Let_def progress_1_of_5 progress_10_of_50)
  have ex3: "getRankProgress Observer 1 29 =
       \<lparr>nextRank = Some Bronze, verifiedProgress = Finite 20,
        pointsProgress = Finite (8162774324609023 / 140737488355328)\<rparr>"
    by (simp add: getRankProgress_def ranks_def Let_def progress_1_of_5 progress_29_of_50)
  from general ex1 ex2 ex3 getRankProgress_nextRank show ?thesis by blast
qed

theorem getRankProgress_next_witness:
  "Silver \<noteq> Diamond
   \<and> nextRank (getRankProgress Silver 60 300) = Some Gold
   \<and> rank_position Gold = rank_position Silver + 1
   \<and> min_verified (RANK_REQUIREMENTS Gold) \<le> 60
   \<and> verifiedProgress (getRankProgress Silver 60 300) = Finite 100
   \<and> (0::int) \<le> 300 \<and> 300 < min_points (RANK_REQUIREMENTS Gold)
   \<and> (\<exists>q. pointsProgress (getRankProgress Silver 60 300) = Finite q \<and> 0 \<le> q \<and> q < 100)
   \<and> js_le (pointsProgress (getRankProgress Silver 60 300)) (Finite 100)"
proof -
  have n: "nextRank (getRankProgress Silver 60 300) = Some Gold"
    by (simp add: getRankProgress_def ranks_def Let_def)
  show ?thesis
    using getRankProgress_next [of Silver 60 300] n by (simp add: rank_position_simps)
qed

section \<open>Properties of badge evaluation\<close>


lemma set_push_if: "y \<in> set (push_if c x xs) \<longleftrightarrow> y \<in> set xs \<or> (c \<and> y = x)"
  by (auto simp: push_if_def)

lemma map_push_if: "map f (push_if c x xs) = push_if c (f x) (map f xs)"
  by (simp add: push_if_def)

lemma badge_ids:
  "badge_id first_report = ''first_report''" "badge_id verified_5 = ''verified_5''"
  "badge_id verified_20 = ''verified_20''" "badge_id verified_50 = ''verified_50''"
  "badge_id enforcement_1 = ''enforcement_1''" "badge_id enforcement_5 = ''enforcement_5''"
  "badge_id water_guardian = ''water_guardian''" "badge_id forest_protector = ''forest_protector''"
  "badge_id early_bird = ''early_bird''" "badge_id photo_evidence = ''photo_evidence''"
  "badge_id voice_reporter = ''voice_reporter''" "badge_id regional_expert = ''regional_expert''"
  "badge_id streak_7 = ''streak_7''" "badge_id streak_30 = ''streak_30''"
  by (simp_all add: first_report_def verified_5_def verified_20_def verified_50_def
      enforcement_1_def enforcement_5_def water_guardian_def forest_protector_def early_bird_def
      photo_evidence_def voice_reporter_def regional_expert_def streak_7_def streak_30_def)

lemma earned_ids:
  "k \<in> badge_id ` set (checkEarnedBadges s) \<longleftrightarrow>
     (reports_submitted s \<ge> 1 \<and> ''first_report'' \<notin> set (existing_badges s) \<and> k = ''first_report''
      \<or> reports_verified s \<ge> 5 \<and> ''verified_5'' \<notin> set (existing_badges s) \<and> k = ''verified_5''
      \<or> reports_verified s \<ge> 20 \<and> ''verified_20'' \<notin> set (existing_badges s) \<and> k = ''verified_20''
      \<or> reports_verified s \<ge> 50 \<and> ''verified_50'' \<notin> set (existing_badges s) \<and> k = ''verified_50''
      \<or> enforcement_actions s \<ge> 1 \<and> ''enforcement_1'' \<notin> set (existing_badges s) \<and> k = ''enforcement_1''
      \<or> enforcement_actions s \<ge> 5 \<and> ''enforcement_5'' \<notin> set (existing_badges s) \<and> k = ''enforcement_5''
      \<or> water_reports s \<ge> 10 \<and> ''water_guardian'' \<notin> set (existing_badges s) \<and> k = ''water_guardian''
      \<or> deforestation_reports s \<ge> 10 \<and> ''forest_protector'' \<notin> set (existing_badges s) \<and> k = ''forest_protector''
      \<or> evidence_count s \<ge> 50 \<and> ''photo_evidence'' \<notin> set (existing_badges s) \<and> k = ''photo_evidence''
      \<or> voice_reports s \<ge> 10 \<and> ''voice_reporter'' \<notin> set (existing_badges s) \<and> k = ''voice_reporter''
      \<or> activity_streak s \<ge> 7 \<and> ''streak_7'' \<notin> set (existing_badges s) \<and> k = ''streak_7''
      \<or> activity_streak s \<ge> 30 \<and> ''streak_30'' \<notin> set (existing_badges s) \<and> k = ''streak_30''
      \<or> is_regional_top s \<and> ''regional_expert'' \<notin> set (existing_badges s) \<and> k = ''regional_expert'')"
  unfolding set_map [symmetric] checkEarnedBadges_def Let_def map_push_if set_push_if badge_ids
  by (simp only: list.map list.set empty_iff simp_thms conj_assoc disj_assoc)

lemma earned_not_existing:
  "k \<in> badge_id ` set (checkEarnedBadges s) \<Longrightarrow> k \<notin> set (existing_badges s)"
  unfolding earned_ids by (elim disjE conjE) simp_all


lemma no_push:
  assumes "\<And>k. k \<in> badge_id ` set (checkEarnedBadges s) \<Longrightarrow> False"
  shows "checkEarnedBadges s = []"
  using assms by (cases "checkEarnedBadges s") auto

lemma idem_general:
  assumes "set (existing_badges s) \<union> badge_id ` set (checkEarnedBadges s) \<subseteq> set E'"
  shows "checkEarnedBadges (s\<lparr>existing_badges := E'\<rparr>) = []"
proof (rule no_push)
  fix k
  assume "k \<in> badge_id ` set (checkEarnedBadges (s\<lparr>existing_badges := E'\<rparr>))"
  then have cases: 
    "reports_submitted s \<ge> 1 \<and> ''first_report'' \<notin> set E' 
      \<or> reports_verified s \<ge> 5 \<and> ''verified_5'' \<notin> set E' 
      \<or> reports_verified s \<ge> 20 \<and> ''verified_20'' \<notin> set E'
      \<or> reports_verified s \<ge> 50 \<and> ''verified_50'' \<notin> set E' 
      \<or> enforcement_actions s \<ge> 1 \<and> ''enforcement_1'' \<notin> set E' 
      \<or> enforcement_actions s \<ge> 5 \<and> ''enforcement_5'' \<notin> set E' 
      \<or> water_reports s \<ge> 10 \<and> ''water_guardian'' \<notin> set E' 
      \<or> deforestation_reports s \<ge> 10 \<and> ''forest_protector'' \<notin> set E' 
      \<or> evidence_count s \<ge> 50 \<and> ''photo_evidence'' \<notin> set E' 
      \<or> voice_reports s \<ge> 10 \<and> ''voice_reporter'' \<notin> set E' 
      \<or> activity_streak s \<ge> 7 \<and> ''streak_7'' \<notin> set E' 
      \<or> activity_streak s \<ge> 30 \<and> ''streak_30'' \<notin> set E' 
      \<or> is_regional_top s \<and> ''regional_expert'' \<notin> set E'"
    unfolding earned_ids by (elim disjE conjE) simp_all
  have sub: "x \<notin> set (existing_badges s) \<and> x \<notin> badge_id ` set (checkEarnedBadges s)"
    if "x \<notin> set E'" for x
    using assms that by auto
  from cases show False
    by (elim disjE conjE) (drule sub, simp add: earned_ids)+
qed


lemma all_qualifying_badges:
  "checkEarnedBadges all_qualifying =
     [first_report, verified_5, verified_20, verified_50, enforcement_1, enforcement_5,
      water_guardian, forest_protector, photo_evidence, voice_reporter, streak_7, streak_30,
      regional_expert]"
  by (simp add: checkEarnedBadges_def all_qualifying_def push_if_def)

lemma verified_jump_badges: "checkEarnedBadges verified_jump = [verified_20]"
  by (simp add: checkEarnedBadges_def verified_jump_def push_if_def)

text \<open>
  C2. Badge award is idempotent: once the ids of the badges that \<open>checkEarnedBadges\<close>
  returns for a snapshot are added to its already-earned list (as any list \<open>E'\<close> with
  exactly those elements, or appended), evaluating again returns the empty list; and no
  returned badge has its id in the already-earned list.
\<close>

theorem checkEarnedBadges_idempotent:
  "(set E' = set (existing_badges s) \<union> badge_id ` set (checkEarnedBadges s) \<longrightarrow>
      checkEarnedBadges (s\<lparr>existing_badges := E'\<rparr>) = [])
   \<and> checkEarnedBadges
        (s\<lparr>existing_badges := existing_badges s @ map badge_id (checkEarnedBadges s)\<rparr>) = []
   \<and> (\<forall>b \<in> set (checkEarnedBadges s). badge_id b \<notin> set (existing_badges s))"
proof (intro conjI impI ballI)
  assume "set E' = set (existing_badges s) \<union> badge_id ` set (checkEarnedBadges s)"
  then show "checkEarnedBadges (s\<lparr>existing_badges := E'\<rparr>) = []"
    by (intro idem_general) simp
next
  show "checkEarnedBadges
        (s\<lparr>existing_badges := existing_badges s @ map badge_id (checkEarnedBadges s)\<rparr>) = []"
    by (intro idem_general) simp
next
  fix b assume "b \<in> set (checkEarnedBadges s)"
  then show "badge_id b \<notin> set (existing_badges s)"
    by (intro earned_not_existing) simp
qed

theorem checkEarnedBadges_idempotent_witness:
  "set [''verified_5'', ''verified_20''] =
     set (existing_badges verified_jump) \<union> badge_id ` set (checkEarnedBadges verified_jump)
   \<and> checkEarnedBadges verified_jump = [verified_20]
   \<and> checkEarnedBadges (verified_jump\<lparr>existing_badges := [''verified_5'', ''verified_20'']\<rparr>) = []
   \<and> verified_20 \<in> set (checkEarnedBadges verified_jump)
   \<and> badge_id verified_20 \<notin> set (existing_badges verified_jump)"
proof -
  have 1: "set [''verified_5'', ''verified_20''] =
     set (existing_badges verified_jump) \<union> badge_id ` set (checkEarnedBadges verified_jump)"
    by (simp add: verified_jump_badges badge_ids) (simp add: verified_jump_def insert_commute)
  have 2: "verified_20 \<in> set (checkEarnedBadges verified_jump)"
    by (simp add: verified_jump_badges)
  show ?thesis
    using checkEarnedBadges_idempotent [of "[''verified_5'', ''verified_20'']" verified_jump] 1 2
    by (simp add: verified_jump_badges)
qed

text \<open>
  C7, as stated, fails: the catalog entry \<open>early_bird\<close> is returned for no snapshot.
\<close>

theorem early_bird_counterexample:
  "\<not> (\<exists>stats. existing_badges stats = [] \<and> early_bird \<in> set (checkEarnedBadges stats))"
proof
  assume "\<exists>stats. existing_badges stats = [] \<and> early_bird \<in> set (checkEarnedBadges stats)"
  then obtain stats where "early_bird \<in> set (checkEarnedBadges stats)" by blast
  then have "badge_id early_bird \<in> badge_id ` set (checkEarnedBadges stats)" by (rule imageI)
  then show False unfolding earned_ids badge_ids by simp
qed

lemma early_bird_never: "early_bird \<notin> set (checkEarnedBadges stats)"
proof
  assume "early_bird \<in> set (checkEarnedBadges stats)"
  then have "badge_id early_bird \<in> badge_id ` set (checkEarnedBadges stats)" by (rule imageI)
  then show False unfolding earned_ids badge_ids by simp
qed

lemma BADGES_points:
  "\<forall>(k, b) \<in> set BADGES. k = badge_id b \<and> 10 \<le> badge_points b \<and> badge_points b \<le> 500"
  by (simp add: BADGES_def first_report_def verified_5_def verified_20_def verified_50_def
      enforcement_1_def enforcement_5_def water_guardian_def forest_protector_def early_bird_def
      photo_evidence_def voice_reporter_def regional_expert_def streak_7_def streak_30_def)

lemma BADGES_awardable:
  "b \<in> snd ` set BADGES \<Longrightarrow> b \<noteq> early_bird \<Longrightarrow> b \<in> set (checkEarnedBadges all_qualifying)"
  unfolding all_qualifying_badges by (auto simp: BADGES_def)

text \<open>
  C7, amended. The catalog has 14 entries with distinct keys, each filed under its own id
  with a point value between 10 and 500; every entry other than \<open>early_bird\<close> is returned
  by \<open>checkEarnedBadges\<close> for some snapshot with nothing earned yet, and \<open>early_bird\<close>, for
  which the evaluator has no rule, is returned for none.
\<close>

theorem BADGES_awardable_except_early_bird:
  "length BADGES = 14
   \<and> distinct (map fst BADGES)
   \<and> (\<forall>(k, b) \<in> set BADGES. k = badge_id b \<and> 10 \<le> badge_points b \<and> badge_points b \<le> 500)
   \<and> (\<forall>b \<in> snd ` set BADGES. b \<noteq> early_bird \<longrightarrow>
         (\<exists>stats. existing_badges stats = [] \<and> b \<in> set (checkEarnedBadges stats)))
   \<and> early_bird \<in> snd ` set BADGES
   \<and> (\<forall>stats. early_bird \<notin> set (checkEarnedBadges stats))"
proof -
  have "length BADGES = 14" "distinct (map fst BADGES)" "early_bird \<in> snd ` set BADGES"
    by (simp_all add: BADGES_def)
  moreover have "\<exists>stats. existing_badges stats = [] \<and> b \<in> set (checkEarnedBadges stats)"
    if "b \<in> snd ` set BADGES" "b \<noteq> early_bird" for b
    using BADGES_awardable [OF that] by (intro exI [of _ all_qualifying]) (simp add: all_qualifying_def)
  ultimately show ?thesis
    using BADGES_points early_bird_never by blast
qed

theorem BADGES_awardable_except_early_bird_witness:
  "first_report \<in> snd ` set BADGES \<and> first_report \<noteq> early_bird
   \<and> (''first_report'', first_report) \<in> set BADGES
   \<and> 10 \<le> badge_points first_report \<and> badge_points first_report \<le> 500
   \<and> (\<exists>stats. existing_badges stats = [] \<and> first_report \<in> set (checkEarnedBadges stats))"
proof -
  have 1: "(''first_report'', first_report) \<in> set BADGES" by (simp add: BADGES_def)
  then have 2: "first_report \<in> snd ` set BADGES" by force
  have 3: "first_report \<noteq> early_bird" by (simp add: first_report_def early_bird_def)
  show ?thesis using BADGES_awardable_except_early_bird 1 2 3 by fastforce
qed


section \<open>Properties of the activity points\<close>

lemma ActivityType_UNIV:
  "(UNIV :: ActivityType set) =
     {Report_submitted, Report_verified, Report_rejected, Enforcement_triggered, Badge_earned,
      Rank_promoted, Comment_added, Evidence_uploaded, Alert_subscription}"
proof -
  have "t \<in> {Report_submitted, Report_verified, Report_rejected, Enforcement_triggered,
      Badge_earned, Rank_promoted, Comment_added, Evidence_uploaded, Alert_subscription}" for t
    by (cases t) simp_all
  then show ?thesis by blast
qed

lemma ACTIVITY_POINTS_keys: "set (map fst ACTIVITY_POINTS) = range activity_key"
  unfolding ActivityType_UNIV by (simp add: ACTIVITY_POINTS_def)

lemma activity_points_unknown:
  assumes "k \<notin> set (map fst ACTIVITY_POINTS)"
  shows "activity_points k = Inr Inherited \<or> activity_points k = Inr Undefined"
proof -
  have "map_of ACTIVITY_POINTS k = None"
    using assms by (simp add: map_of_eq_None_iff)
  then show ?thesis by (simp add: activity_points_def get_property_def)
qed

text \<open>
  C3, as stated, fails in its second half: reading the table at a name that is not an
  activity type raises no error; the value read is \<^verbatim>\<open>undefined\<close>.
\<close>

theorem activity_points_counterexample:
  "activity_points ''report_deleted'' = Inr Undefined"
  by (simp add: activity_points_def get_property_def ACTIVITY_POINTS_def Object_prototype_keys_def)

text \<open>
  C3, amended. For each of the nine activity types the table gives exactly its literal
  value (5, 15, 0, 50, 0, 25, 2, 5, 3); for a name that is none of the nine, reading the
  table raises no error and gives no number: the value is \<^verbatim>\<open>undefined\<close>, or the member
  inherited from \<^verbatim>\<open>Object.prototype\<close>.
\<close>

theorem activity_points_table:
  "activity_points (activity_key Report_submitted) = Inr (Number 5)
   \<and> activity_points (activity_key Report_verified) = Inr (Number 15)
   \<and> activity_points (activity_key Report_rejected) = Inr (Number 0)
   \<and> activity_points (activity_key Enforcement_triggered) = Inr (Number 50)
   \<and> activity_points (activity_key Badge_earned) = Inr (Number 0)
   \<and> activity_points (activity_key Rank_promoted) = Inr (Number 25)
   \<and> activity_points (activity_key Comment_added) = Inr (Number 2)
   \<and> activity_points (activity_key Evidence_uploaded) = Inr (Number 5)
   \<and> activity_points (activity_key Alert_subscription) = Inr (Number 3)
   \<and> (k \<notin> range activity_key \<longrightarrow>
        (activity_points k = Inr Inherited \<or> activity_points k = Inr Undefined))"
proof -
  have "k \<notin> range activity_key \<longrightarrow>
        (activity_points k = Inr Inherited \<or> activity_points k = Inr Undefined)"
    using activity_points_unknown [of k] by (simp only: ACTIVITY_POINTS_keys) blast
  moreover have "activity_points (activity_key Report_submitted) = Inr (Number 5)"
    "activity_points (activity_key Report_verified) = Inr (Number 15)"
    "activity_points (activity_key Report_rejected) = Inr (Number 0)"
    "activity_points (activity_key Enforcement_triggered) = Inr (Number 50)"
    "activity_points (activity_key Badge_earned) = Inr (Number 0)"
    "activity_points (activity_key Rank_promoted) = Inr (Number 25)"
    "activity_points (activity_key Comment_added) = Inr (Number 2)"
    "activity_points (activity_key Evidence_uploaded) = Inr (Number 5)"
    "activity_points (activity_key Alert_subscription) = Inr (Number 3)"
    by (simp_all add: activity_points_def get_property_def ACTIVITY_POINTS_def)
  ultimately show ?thesis by blast
qed

theorem activity_points_table_witness:
  "''toString'' \<notin> range activity_key \<and> activity_points ''toString'' = Inr Inherited"
proof -
  have 1: "''toString'' \<notin> range activity_key"
    unfolding ActivityType_UNIV by simp
  have 2: "activity_points ''toString'' \<noteq> Inr Undefined"
    by (simp add: activity_points_def get_property_def ACTIVITY_POINTS_def Object_prototype_keys_def)
  show ?thesis using activity_points_table [of "''toString''"] 1 2 by blast
qed

section \<open>Properties of the environmental impact\<close>

lemma abs_less_cast: "\<bar>n\<bar> < 2 ^ 53 \<Longrightarrow> \<bar>of_int n :: rat\<bar> < 2 ^ 53"
  by (metis of_int_abs of_int_less_iff of_int_numeral of_int_power)

text \<open>The hectares, when every intermediate result is an integer or a half below \<open>2 ^ 53\<close>.\<close>

lemma hectares_exact:
  assumes v: "\<bar>v\<bar> < 2 ^ 53" and e: "\<bar>e\<bar> < 2 ^ 53" and e2: "\<bar>2 * e\<bar> < 2 ^ 53"
    and c: "\<bar>c\<bar> < 2 ^ 53" and c10: "\<bar>10 * c\<bar> < 2 ^ 53"
    and s1: "\<bar>v + 4 * e\<bar> < 2 ^ 53" and s2: "\<bar>v + 4 * e + 20 * c\<bar> < 2 ^ 53"
    and t: "\<bar>5 * (v + 4 * e + 20 * c)\<bar> < 2 ^ 53"
  shows "hectares_protected (calculateEnvironmentalImpact
           \<lparr>verified_reports = v, impact_enforcement_actions = e, sites_closed = c\<rparr>) =
         Finite (of_int v * (1 / 2) + of_int e * 2 + of_int c * 10)"
proof -
  have a1: "js_times (double_of_int v) (decimal_literal (1 / 2)) = Finite (of_int v / 2)"
    using round_to_double_half [OF v]
    by (simp add: double_of_int_exact [OF v] decimal_one_half js_times_Finite)
  have "round_to_double (of_int (2 * e)) = Finite (of_int (2 * e))"
    using e2 by (rule round_to_double_int)
  then have a2: "js_times (double_of_int e) (double_of_int 2) = Finite (of_int (2 * e))"
    using double_of_int_exact [of 2]
    by (simp add: double_of_int_exact [OF e] js_times_Finite mult.commute)
  have "round_to_double (of_int (v + 4 * e) / 2) = Finite (of_int (v + 4 * e) / 2)"
    using s1 by (rule round_to_double_half)
  moreover have "(of_int v / 2 + of_int (2 * e) :: rat) = of_int (v + 4 * e) / 2" by simp
  ultimately have a3: "js_plus (Finite (of_int v / 2)) (Finite (of_int (2 * e))) =
      Finite (of_int (v + 4 * e) / 2)"
    by (simp only: js_plus_Finite)
  have "round_to_double (of_int (10 * c)) = Finite (of_int (10 * c))"
    using c10 by (rule round_to_double_int)
  then have a4: "js_times (double_of_int c) (double_of_int 10) = Finite (of_int (10 * c))"
    using double_of_int_exact [of 10]
    by (simp add: double_of_int_exact [OF c] js_times_Finite mult.commute)
  have "round_to_double (of_int (v + 4 * e + 20 * c) / 2) = Finite (of_int (v + 4 * e + 20 * c) / 2)"
    using s2 by (rule round_to_double_half)
  moreover have "(of_int (v + 4 * e) / 2 + of_int (10 * c) :: rat) = of_int (v + 4 * e + 20 * c) / 2"
    by simp
  ultimately have a5: "js_plus (Finite (of_int (v + 4 * e) / 2)) (Finite (of_int (10 * c))) =
      Finite (of_int (v + 4 * e + 20 * c) / 2)"
    by (simp only: js_plus_Finite)
  have "round_to_double (of_int (5 * (v + 4 * e + 20 * c))) = Finite (of_int (5 * (v + 4 * e + 20 * c)))"
    using t by (rule round_to_double_int)
  moreover have "(of_int (v + 4 * e + 20 * c) / 2 * 10 :: rat) = of_int (5 * (v + 4 * e + 20 * c))"
    by simp
  ultimately have a6: "js_times (Finite (of_int (v + 4 * e + 20 * c) / 2)) (Finite 10) =
      Finite (of_int (5 * (v + 4 * e + 20 * c)))"
    by (simp only: js_times_Finite)
  have d: "js_divide (Finite (of_int (5 * (v + 4 * e + 20 * c)))) (Finite 10) =
      round_to_double (of_int (5 * (v + 4 * e + 20 * c)) / 10)"
    by (rule js_divide_Finite) simp
  have q: "(of_int (5 * (v + 4 * e + 20 * c)) / 10 :: rat) = of_int (v + 4 * e + 20 * c) / 2"
    by simp
  have a7: "js_divide (Finite (of_int (5 * (v + 4 * e + 20 * c)))) (Finite 10) =
      Finite (of_int (v + 4 * e + 20 * c) / 2)"
    unfolding d q using s2 by (rule round_to_double_half)
  have ten: "double_of_int 10 = Finite 10" using double_of_int_exact [of 10] by simp
  have "hectares_protected (calculateEnvironmentalImpact
           \<lparr>verified_reports = v, impact_enforcement_actions = e, sites_closed = c\<rparr>) =
         Finite (of_int (v + 4 * e + 20 * c) / 2)"
    unfolding calculateEnvironmentalImpact_def Let_def impact_stats.simps
      environmental_impact.simps a1 a2 a3 a4 a5
    by (simp only: ten a6 Math_round_of_int a7)
  then show ?thesis by simp
qed

text \<open>A tenth of a count: the product with the double \<^verbatim>\<open>0.1\<close>, rounded, and its floor.\<close>

lemma floor_tenth:
  assumes "0 \<le> v" "5 * v < 2 ^ 53"
  shows "Math_floor (js_times (double_of_int v) (decimal_literal (1 / 10))) =
         Finite (of_int (v div 10))"
proof -
  define k where "k = v div 10"
  define x :: rat where "x = of_int v * (3602879701896397 / 36028797018963968)"
  have v: "double_of_int v = Finite (of_int v)"
    using assms by (intro double_of_int_exact) simp
  have k: "0 \<le> k" "10 * k \<le> v" "v < 10 * k + 10" "50 * k < 2 ^ 53"
    using assms by (simp_all add: k_def)
  have kr: "(of_int (10 * k) :: rat) \<le> of_int v" "(of_int v :: rat) + 1 \<le> of_int (10 * k + 10)"
    "(of_int (50 * k) :: rat) \<le> 2 ^ 53"
    using k(2) apply (simp only: of_int_le_iff)
    using k(3) apply (metis of_int_1 of_int_add of_int_le_iff zless_imp_add1_zle)
    using k(4) apply (metis less_imp_le of_int_le_iff of_int_numeral of_int_power)
    done
  have k0: "(0::rat) \<le> of_int k" using k(1) by simp
  have lo: "of_int k \<le> x"
    using kr k0 unfolding x_def by simp
  have hi: "x \<le> of_int k + 15 / 16"
    using kr k0 unfolding x_def by simp
  have "\<exists>q. round_to_double x = Finite q \<and> of_int k \<le> q \<and> q \<le> of_int k + 15 / 16"
  proof (cases "k = 0")
    case True
    show ?thesis
    proof (cases "x = 0")
      case True
      with \<open>k = 0\<close> show ?thesis by simp
    next
      case False
      with lo \<open>k = 0\<close> have pos: "0 < x" by simp
      from hi \<open>k = 0\<close> have "x \<le> of_int 15 * 2 powi (- 4)" by simp
      from round_to_double_le [OF _ _ _ refl _ pos this] \<open>k = 0\<close> show ?thesis by simp
    qed
  next
    case False
    with k(1) have kpos: "0 < k" by simp
    from k(4) have k53: "k < 2 ^ 53" "16 * k + 15 < 2 ^ 53" by simp_all
    have r: "(of_int k :: rat) = of_int k * 2 powi 0" by simp
    have r': "(of_int k + 15 / 16 :: rat) = of_int (16 * k + 15) * 2 powi (- 4)" by simp
    have "(of_int (16 * k + 15) :: rat) < 2 ^ 53"
      using k53(2) by (metis of_int_less_iff of_int_numeral of_int_power)
    then have "(of_int k + 15 / 16 :: rat) < 2 ^ 53" by simp
    also have "(2::rat) ^ 53 = 2 powi 53" by (simp only: power_int_numeral)
    also have "(2::rat) powi 53 < 2 powi 1024" by (rule two_powi_less) simp
    finally have b: "(of_int k + 15 / 16 :: rat) < 2 powi 1024" .
    show ?thesis
      using round_to_double_between [OF kpos k53(1) _ r _ k53(2) _ r' b lo hi] kpos by simp
  qed
  then obtain q where q: "round_to_double x = Finite q" "of_int k \<le> q" "q \<le> of_int k + 15 / 16"
    by blast
  then have "\<lfloor>q\<rfloor> = k" by (intro floor_unique) simp_all
  with q(1) show ?thesis
    unfolding v decimal_one_tenth js_times_Finite by (simp add: x_def Math_floor_def k_def)
qed

lemma water_exact:
  assumes "0 \<le> v" "5 * v < 2 ^ 53" "\<bar>c\<bar> < 2 ^ 53" "\<bar>v div 10 + c\<bar> < 2 ^ 53"
  shows "water_bodies_saved (calculateEnvironmentalImpact
           \<lparr>verified_reports = v, impact_enforcement_actions = e, sites_closed = c\<rparr>) =
         Finite (of_int (v div 10 + c))"
proof -
  have one: "js_times (double_of_int c) (double_of_int 1) = Finite (of_int c)"
    using double_of_int_exact [of 1] round_to_double_int [OF assms(3)]
    by (simp add: double_of_int_exact [OF assms(3)] js_times_Finite)
  have "js_plus (Finite (of_int (v div 10))) (Finite (of_int c)) = Finite (of_int (v div 10 + c))"
    using round_to_double_int [OF assms(4)] by (simp add: js_plus_Finite)
  then show ?thesis
    unfolding calculateEnvironmentalImpact_def Let_def impact_stats.simps
      environmental_impact.simps floor_tenth [OF assms(1,2)] one
    by simp
qed

lemma impact_bounded:
  assumes "0 \<le> v" "0 \<le> e" "0 \<le> c" "5 * v + 20 * e + 100 * c < 2 ^ 53"
  shows "calculateEnvironmentalImpact
           \<lparr>verified_reports = v, impact_enforcement_actions = e, sites_closed = c\<rparr> =
         \<lparr>hectares_protected = Finite (of_int v * (1 / 2) + of_int e * 2 + of_int c * 10),
          water_bodies_saved = Finite (of_int (v div 10 + c))\<rparr>"
proof -
  have h: "hectares_protected (calculateEnvironmentalImpact
           \<lparr>verified_reports = v, impact_enforcement_actions = e, sites_closed = c\<rparr>) =
         Finite (of_int v * (1 / 2) + of_int e * 2 + of_int c * 10)"
    using assms by (intro hectares_exact) simp_all
  have "v div 10 \<le> v" using assms(1) by simp
  then have w: "water_bodies_saved (calculateEnvironmentalImpact
           \<lparr>verified_reports = v, impact_enforcement_actions = e, sites_closed = c\<rparr>) =
         Finite (of_int (v div 10 + c))"
    using assms by (intro water_exact) simp_all
  from h w show ?thesis
    by (cases "calculateEnvironmentalImpact
           \<lparr>verified_reports = v, impact_enforcement_actions = e, sites_closed = c\<rparr>") simp
qed

lemma floor_tenth_rat: "\<lfloor>(of_int v :: rat) * (1 / 10)\<rfloor> = v div 10"
proof -
  have "(of_int v * (1 / 10) :: rat) = of_int v / of_int 10" by simp
  then show ?thesis by (simp only: floor_divide_of_int_eq)
qed

text \<open>
  C4, amended. For integer inputs \<open>v\<close>, \<open>e\<close>, \<open>c\<close> (verified reports, enforcement
  actions, sites closed) that are not negative and have \<open>5 * v + 20 * e + 100 * c\<close> below
  \<open>2 ^ 53\<close>, \<open>hectares_protected\<close> is \<open>v * 0.5 + e * 2 + c * 10\<close>, a number of tenths
  that the rounding to one decimal place leaves as it is, and \<open>water_bodies_saved\<close> is
  \<open>floor (v * 0.1) + c\<close>; for \<open>(10, 2, 1)\<close> the result is 19.0 hectares and 2 water
  bodies.
\<close>

theorem calculateEnvironmentalImpact_formula:
  "(0 \<le> v \<and> 0 \<le> e \<and> 0 \<le> c \<and> 5 * v + 20 * e + 100 * c < 2 ^ 53 \<longrightarrow>
      calculateEnvironmentalImpact
        \<lparr>verified_reports = v, impact_enforcement_actions = e, sites_closed = c\<rparr> =
      \<lparr>hectares_protected = Finite (of_int v * (1 / 2) + of_int e * 2 + of_int c * 10),
       water_bodies_saved = Finite (of_int (\<lfloor>(of_int v :: rat) * (1 / 10)\<rfloor> + c))\<rparr>)
   \<and> of_int v * (1 / 2) + of_int e * 2 + of_int c * 10 =
       (of_int (5 * v + 20 * e + 100 * c) / 10 :: rat)
   \<and> calculateEnvironmentalImpact
       \<lparr>verified_reports = 10, impact_enforcement_actions = 2, sites_closed = 1\<rparr>
     = \<lparr>hectares_protected = Finite 19, water_bodies_saved = Finite 2\<rparr>"
proof -
  have "calculateEnvironmentalImpact
       \<lparr>verified_reports = 10, impact_enforcement_actions = 2, sites_closed = 1\<rparr>
     = \<lparr>hectares_protected = Finite 19, water_bodies_saved = Finite 2\<rparr>"
    using impact_bounded [of 10 2 1] by simp
  moreover have "of_int v * (1 / 2) + of_int e * 2 + of_int c * 10 =
       (of_int (5 * v + 20 * e + 100 * c) / 10 :: rat)"
    by simp
  ultimately show ?thesis
    using impact_bounded [of v e c] by (simp only: floor_tenth_rat) blast
qed

theorem calculateEnvironmentalImpact_formula_witness:
  "(0::int) \<le> 25 \<and> (0::int) \<le> 3 \<and> (0::int) \<le> 2 \<and> 5 * 25 + 20 * 3 + 100 * 2 < (2::int) ^ 53
   \<and> calculateEnvironmentalImpact
       \<lparr>verified_reports = 25, impact_enforcement_actions = 3, sites_closed = 2\<rparr>
     = \<lparr>hectares_protected = Finite (77 / 2), water_bodies_saved = Finite 4\<rparr>"
  using calculateEnvironmentalImpact_formula [of 25 3 2] floor_tenth_rat [of 25] by simp

lemma scaled_tie: "round_to_double 9007199254740995 = Finite 9007199254740996"
  using round_to_double_tie [of 53 9007199254740995 4503599627370497] by simp

lemma scaled_tenth: "round_to_double (9007199254740996 / 10) = Finite (7205759403792797 / 8)"
  using round_to_double_near [of 49 "9007199254740996 / 10" 7205759403792797] by simp

lemma large_tenth:
  "round_to_double (9007199254740989 * (3602879701896397 / 36028797018963968)) =
     Finite 900719925474099"
  using round_to_double_near
    [of 49 "9007199254740989 * (3602879701896397 / 36028797018963968)" 7205759403792792]
  by simp

lemma minus_ten_tenths:
  "round_to_double (- 10 * (3602879701896397 / 36028797018963968)) = Finite (- 1)"
  using round_to_double_near_neg
    [of 0 "- 10 * (3602879701896397 / 36028797018963968)" 4503599627370496]
  by simp

lemma large_ints:
  "double_of_int 0 = Finite 0" "double_of_int 1 = Finite 1" "double_of_int 2 = Finite 2"
  "double_of_int 10 = Finite 10"
  "double_of_int 1801439850948199 = Finite 1801439850948199"
  "double_of_int 9007199254740989 = Finite 9007199254740989"
  "double_of_int (- 1) = Finite (- 1)" "double_of_int (- 10) = Finite (- 10)"
  using double_of_int_exact [of 0] double_of_int_exact [of 1] double_of_int_exact [of 2]
    double_of_int_exact [of 10] double_of_int_exact [of 1801439850948199]
    double_of_int_exact [of 9007199254740989] double_of_int_exact [of "- 1"]
    double_of_int_exact [of "- 10"]
  by simp_all

lemma large_half: "round_to_double (1801439850948199 / 2) = Finite (1801439850948199 / 2)"
  using round_to_double_half [of 1801439850948199] by simp

lemma large_hectares:
  "hectares_protected (calculateEnvironmentalImpact
     \<lparr>verified_reports = 1801439850948199, impact_enforcement_actions = 0, sites_closed = 0\<rparr>)
   = Finite (7205759403792797 / 8)"
proof -
  have a1: "js_times (double_of_int 1801439850948199) (decimal_literal (1 / 2)) =
      Finite (1801439850948199 / 2)"
    using large_half by (simp add: large_ints decimal_one_half js_times_Finite)
  have a2: "js_times (double_of_int 0) (double_of_int 2) = Finite 0"
    by (simp add: large_ints js_times_Finite)
  have a3: "js_times (double_of_int 0) (double_of_int 10) = Finite 0"
    by (simp add: large_ints js_times_Finite)
  have a4: "js_plus (Finite (1801439850948199 / 2)) (Finite 0) = Finite (1801439850948199 / 2)"
    using large_half by (simp add: js_plus_Finite)
  have a5: "js_times (Finite (1801439850948199 / 2)) (double_of_int 10) = Finite 9007199254740996"
    using scaled_tie by (simp add: large_ints js_times_Finite)
  have a6: "Math_round (Finite 9007199254740996) = Finite 9007199254740996"
    using Math_round_of_int [of 9007199254740996] by simp
  have a7: "js_divide (Finite 9007199254740996) (double_of_int 10) = Finite (7205759403792797 / 8)"
    using scaled_tenth by (simp add: large_ints js_divide_Finite)
  show ?thesis
    by (simp add: calculateEnvironmentalImpact_def Let_def a1 a2 a3 a4 a5 a6 a7)
qed

lemma large_water:
  "water_bodies_saved (calculateEnvironmentalImpact
     \<lparr>verified_reports = 9007199254740989, impact_enforcement_actions = 0, sites_closed = 0\<rparr>)
   = Finite 900719925474099"
proof -
  have b1: "js_times (double_of_int 9007199254740989) (decimal_literal (1 / 10)) =
      Finite 900719925474099"
    using large_tenth by (simp add: large_ints decimal_one_tenth js_times_Finite)
  have b2: "Math_floor (Finite 900719925474099) = Finite 900719925474099"
    by (simp add: Math_floor_def)
  have b3: "js_times (double_of_int 0) (double_of_int 1) = Finite 0"
    by (simp add: large_ints js_times_Finite)
  have b4: "js_plus (Finite 900719925474099) (Finite 0) = Finite 900719925474099"
    using round_to_double_int [of 900719925474099] by (simp add: js_plus_Finite)
  show ?thesis
    by (simp add: calculateEnvironmentalImpact_def Let_def b1 b2 b3 b4)
qed

text \<open>
  C4, as stated, fails for large counts, where the arithmetic of doubles rounds. With
  1801439850948199 verified reports the hectares times 10 are 9007199254740995, which
  is rounded to 9007199254740996, and the result is 900719925474099.625, where the
  formula gives 900719925474099.5. With 9007199254740989 verified reports the product
  with 0.1 is rounded up to 900719925474099, one more than \<open>floor (v * 0.1)\<close>.
\<close>

theorem large_count_counterexample:
  "hectares_protected (calculateEnvironmentalImpact
     \<lparr>verified_reports = 1801439850948199, impact_enforcement_actions = 0, sites_closed = 0\<rparr>)
   = Finite (7205759403792797 / 8)
   \<and> Finite (7205759403792797 / 8) \<noteq>
     Finite (of_int 1801439850948199 * (1 / 2) + of_int 0 * 2 + of_int 0 * 10)
   \<and> water_bodies_saved (calculateEnvironmentalImpact
     \<lparr>verified_reports = 9007199254740989, impact_enforcement_actions = 0, sites_closed = 0\<rparr>)
   = Finite 900719925474099
   \<and> Finite 900719925474099 \<noteq>
     Finite (of_int (\<lfloor>(of_int 9007199254740989 :: rat) * (1 / 10)\<rfloor> + 0))"
proof -
  have "\<lfloor>(of_int 9007199254740989 :: rat) * (1 / 10)\<rfloor> = 900719925474098"
    by (simp only: floor_tenth_rat)
  then show ?thesis
    using large_hectares large_water by simp
qed

lemma negative_water:
  "water_bodies_saved (calculateEnvironmentalImpact
     \<lparr>verified_reports = - 10, impact_enforcement_actions = - 2, sites_closed = - 1\<rparr>)
   = Finite (- 2)"
proof -
  have b1: "js_times (double_of_int (- 10)) (decimal_literal (1 / 10)) = Finite (- 1)"
    using minus_ten_tenths by (simp add: large_ints decimal_one_tenth js_times_Finite)
  have b2: "Math_floor (Finite (- 1)) = Finite (- 1)"
    by (simp add: Math_floor_def)
  have b3: "js_times (double_of_int (- 1)) (double_of_int 1) = Finite (- 1)"
    using round_to_double_int [of "- 1"] by (simp add: large_ints js_times_Finite)
  have b4: "js_plus (Finite (- 1)) (Finite (- 1)) = Finite (- 2)"
    using round_to_double_int [of "- 2"] by (simp add: js_plus_Finite)
  show ?thesis
    by (simp add: calculateEnvironmentalImpact_def Let_def b1 b2 b3 b4)
qed

lemma hectares_moderate:
  assumes "\<bar>v\<bar> \<le> 2 ^ 45" "\<bar>e\<bar> \<le> 2 ^ 45" "\<bar>c\<bar> \<le> 2 ^ 45"
  shows "hectares_protected (calculateEnvironmentalImpact
           \<lparr>verified_reports = v, impact_enforcement_actions = e, sites_closed = c\<rparr>) =
         Finite (of_int v * (1 / 2) + of_int e * 2 + of_int c * 10)"
  using assms by (intro hectares_exact) simp_all

text \<open>
  C9, as stated, fails: on negative inputs both functions return a computed result, not a
  validation error.
\<close>

theorem negative_inputs_counterexample:
  "call_calculateRank (- 1) (- 1) = Inr Observer
   \<and> call_calculateEnvironmentalImpact
       \<lparr>verified_reports = - 10, impact_enforcement_actions = - 2, sites_closed = - 1\<rparr>
     = Inr \<lparr>hectares_protected = Finite (- 19), water_bodies_saved = Finite (- 2)\<rparr>"
proof -
  have h: "hectares_protected (calculateEnvironmentalImpact
     \<lparr>verified_reports = - 10, impact_enforcement_actions = - 2, sites_closed = - 1\<rparr>)
     = Finite (- 19)"
    using hectares_moderate [of "- 10" "- 2" "- 1"] by simp
  have "calculateEnvironmentalImpact
       \<lparr>verified_reports = - 10, impact_enforcement_actions = - 2, sites_closed = - 1\<rparr>
     = \<lparr>hectares_protected = Finite (- 19), water_bodies_saved = Finite (- 2)\<rparr>"
    using h negative_water
    by (cases "calculateEnvironmentalImpact
       \<lparr>verified_reports = - 10, impact_enforcement_actions = - 2, sites_closed = - 1\<rparr>") simp
  then show ?thesis
    by (simp add: call_calculateRank_def call_calculateEnvironmentalImpact_def calculateRank_def)
qed

text \<open>
  C9, amended. Negative inputs are not rejected. \<open>calculateRank\<close> returns observer
  whenever one of its arguments is negative. \<open>calculateEnvironmentalImpact\<close> returns a
  result, never an error, for every input; for counts of magnitude up to \<open>2 ^ 45\<close>,
  negative or not, the hectares of the result are \<open>v * 0.5 + e * 2 + c * 10\<close>.
\<close>

theorem negative_inputs_computed:
  "(verifiedReports < 0 \<or> points < 0 \<longrightarrow>
      call_calculateRank verifiedReports points = Inr Observer)
   \<and> (\<exists>r. call_calculateEnvironmentalImpact stats = Inr r)
   \<and> (\<bar>v\<bar> \<le> 2 ^ 45 \<and> \<bar>e\<bar> \<le> 2 ^ 45 \<and> \<bar>c\<bar> \<le> 2 ^ 45 \<longrightarrow>
        (\<exists>w. call_calculateEnvironmentalImpact
           \<lparr>verified_reports = v, impact_enforcement_actions = e, sites_closed = c\<rparr> =
         Inr \<lparr>hectares_protected = Finite (of_int v * (1 / 2) + of_int e * 2 + of_int c * 10),
              water_bodies_saved = w\<rparr>))"
proof -
  have r: "verifiedReports < 0 \<or> points < 0 \<longrightarrow>
      call_calculateRank verifiedReports points = Inr Observer"
    by (auto simp add: call_calculateRank_def calculateRank_def)
  have i: "\<exists>r. call_calculateEnvironmentalImpact stats = Inr r"
    by (simp add: call_calculateEnvironmentalImpact_def)
  have h: "\<exists>w. call_calculateEnvironmentalImpact
           \<lparr>verified_reports = v, impact_enforcement_actions = e, sites_closed = c\<rparr> =
         Inr \<lparr>hectares_protected = Finite (of_int v * (1 / 2) + of_int e * 2 + of_int c * 10),
              water_bodies_saved = w\<rparr>"
    if "\<bar>v\<bar> \<le> 2 ^ 45" "\<bar>e\<bar> \<le> 2 ^ 45" "\<bar>c\<bar> \<le> 2 ^ 45"
  proof -
    let ?r = "calculateEnvironmentalImpact
           \<lparr>verified_reports = v, impact_enforcement_actions = e, sites_closed = c\<rparr>"
    have "?r = \<lparr>hectares_protected = Finite (of_int v * (1 / 2) + of_int e * 2 + of_int c * 10),
              water_bodies_saved = water_bodies_saved ?r\<rparr>"
      using hectares_moderate [OF that] by (cases ?r) simp
    then show ?thesis
      unfolding call_calculateEnvironmentalImpact_def by blast
  qed
  from r i h show ?thesis by blast
qed

theorem negative_inputs_computed_witness:
  "((- 3 :: int) < 0 \<or> (1000 :: int) < 0)
   \<and> call_calculateRank (- 3) 1000 = Inr Observer
   \<and> \<bar>- 10 :: int\<bar> \<le> 2 ^ 45 \<and> \<bar>- 2 :: int\<bar> \<le> 2 ^ 45 \<and> \<bar>- 1 :: int\<bar> \<le> 2 ^ 45
   \<and> (\<exists>w. call_calculateEnvironmentalImpact
           \<lparr>verified_reports = - 10, impact_enforcement_actions = - 2, sites_closed = - 1\<rparr> =
         Inr \<lparr>hectares_protected = Finite (- 19), water_bodies_saved = w\<rparr>)"
  using negative_inputs_computed [of "- 3" 1000 undefined "- 10" "- 2" "- 1"] by simp

section \<open>Properties of the leaderboard\<close>

lemma map_rank_add_rank_numbers:
  "map rank (add_rank_numbers rows) = map int [1..<Suc (length rows)]"
proof -
  have "map rank (add_rank_numbers rows) = map ((\<lambda>i. int (Suc i)) \<circ> fst) (enumerate 0 rows)"
    by (simp add: add_rank_numbers_def case_prod_beta comp_def)
  also have "\<dots> = map (\<lambda>i. int (Suc i)) (map fst (enumerate 0 rows))"
    by (simp only: map_map)
  also have "\<dots> = map (int \<circ> Suc) [0..<length rows]"
    by (simp add: comp_def)
  also have "\<dots> = map int (map Suc [0..<length rows])"
    by (simp only: map_map)
  also have "\<dots> = map int [1..<Suc (length rows)]"
    by (simp only: map_Suc_upt One_nat_def)
  finally show ?thesis .
qed

lemma length_add_rank_numbers: "length (add_rank_numbers rows) = length rows"
  by (simp add: add_rank_numbers_def)

lemma map_score_add_rank_numbers: "map score (add_rank_numbers rows) = map row_score rows"
proof -
  have "map score (add_rank_numbers rows) = map (row_score \<circ> snd) (enumerate 0 rows)"
    by (simp add: add_rank_numbers_def case_prod_beta comp_def)
  also have "\<dots> = map row_score (map snd (enumerate 0 rows))"
    by (simp only: map_map)
  finally show ?thesis by simp
qed

lemma map_user_id_add_rank_numbers: "map user_id (add_rank_numbers rows) = map row_user_id rows"
proof -
  have "map user_id (add_rank_numbers rows) = map (row_user_id \<circ> snd) (enumerate 0 rows)"
    by (simp add: add_rank_numbers_def case_prod_beta comp_def)
  also have "\<dots> = map row_user_id (map snd (enumerate 0 rows))"
    by (simp only: map_map)
  finally show ?thesis by simp
qed

lemma row_score_select_row:
  "row_score (select_row params db u) = COALESCE (order_key params db u) 0"
  by (simp add: select_row_def order_key_def COALESCE_def)

lemma map_LIMIT: "map f (LIMIT n xs) = LIMIT n (map f xs)"
  by (simp add: LIMIT_def take_map)

lemma set_LIMIT: "set (LIMIT n xs) \<subseteq> set xs"
  by (auto simp: LIMIT_def dest: in_set_takeD)

lemma sorted_wrt_LIMIT: "sorted_wrt P xs \<Longrightarrow> sorted_wrt P (LIMIT n xs)"
  by (simp add: LIMIT_def sorted_wrt_take)


text \<open>The two parts of a successful answer: the rows exist and the limit is bound.\<close>

lemma GET_Success:
  assumes "GET params db (Some ordered) = Success entries"
  shows "\<exists>rows n. candidates params db = Some rows \<and> bound_limit (limit params) = Some n \<and>
           entries = add_rank_numbers (map (select_row params db) (LIMIT n ordered))"
  using assms by (auto simp: GET_def split: option.splits)

lemma answers_candidates:
  assumes "answers params db ordered" "candidates params db = Some rows"
  shows "order_by_desc (order_key params db) rows ordered"
  using assms by (simp add: answers_def)

lemma map_score_entries:
  "map score (add_rank_numbers (map (select_row params db) (LIMIT n ordered))) =
     LIMIT n (map (\<lambda>k. COALESCE k 0) (map (order_key params db) ordered))"
  by (simp add: map_score_add_rank_numbers map_LIMIT row_score_select_row comp_def)

lemma map_user_id_entries:
  "map user_id (add_rank_numbers (map (select_row params db) (LIMIT n ordered))) =
     map u_id (LIMIT n ordered)"
  by (simp add: map_user_id_add_rank_numbers select_row_def comp_def)

text \<open>Two descending arrangements of the same rows carry the same keys at each position.\<close>

lemma order_by_desc_keys:
  assumes "order_by_desc key rows out1" "order_by_desc key rows out2"
  shows "map key out1 = map key out2"
proof -
  have s: "sorted (rev (map key out))" "mset (rev (map key out)) = mset (map key rows)"
    if "order_by_desc key rows out" for out
  proof -
    from that have "sorted_wrt (\<lambda>a b. key b \<le> key a) out" and m: "mset out = mset rows"
      by (simp_all add: order_by_desc_def)
    then have "sorted_wrt (\<lambda>a b. b \<le> a) (map key out)"
      by (simp add: sorted_wrt_map)
    then show "sorted (rev (map key out))"
      by (simp add: sorted_wrt_rev)
    from m have "mset (map key out) = mset (map key rows)"
      by (metis mset_map)
    then show "mset (rev (map key out)) = mset (map key rows)"
      by simp
  qed
  have "sort (map key rows) = rev (map key out1)"
    using s [OF assms(1)] by (intro properties_for_sort)
  moreover have "sort (map key rows) = rev (map key out2)"
    using s [OF assms(2)] by (intro properties_for_sort)
  ultimately have "rev (map key out1) = rev (map key out2)" by simp
  then show ?thesis by simp
qed

lemma order_by_desc_set: "order_by_desc key rows out \<Longrightarrow> set out = set rows"
  by (auto simp: order_by_desc_def dest: mset_eq_setD)

text \<open>Rows with pairwise different keys have one descending arrangement.\<close>

lemma order_by_desc_unique:
  assumes "order_by_desc key rows out1" "order_by_desc key rows out2" "inj_on key (set rows)"
  shows "out1 = out2"
proof -
  have "inj_on key (set out1 \<union> set out2)"
    using assms(3) order_by_desc_set [OF assms(1)] order_by_desc_set [OF assms(2)] by simp
  then show ?thesis
    using order_by_desc_keys [OF assms(1,2)] by (simp only: inj_on_map_eq_map)
qed

lemma candidates_subset:
  assumes "candidates params db = Some rows"
  shows "set rows \<subseteq> set (users db)"
  using assms by (auto simp: candidates_def split: if_splits)

lemma COALESCE_mono:
  assumes "b \<le> a" "\<And>n. a = Some n \<Longrightarrow> 0 \<le> n" "\<And>n. b = Some n \<Longrightarrow> 0 \<le> n"
  shows "COALESCE b 0 \<le> COALESCE a (0::int)"
  using assms by (cases a; cases b) (auto simp: COALESCE_def)

lemma sorted_COALESCE:
  assumes "sorted_wrt (\<lambda>a b. k b \<le> k a) xs"
    and "\<And>u n. u \<in> set xs \<Longrightarrow> k u = Some n \<Longrightarrow> 0 \<le> n"
  shows "sorted_wrt (\<lambda>a b. b \<le> a) (map (\<lambda>u. COALESCE (k u) (0::int)) xs)"
  unfolding sorted_wrt_map
  by (rule sorted_wrt_mono_rel [OF _ assms(1)]) (auto intro: COALESCE_mono assms(2))

lemma candidates_key_nonneg:
  assumes "period params = ''all_time'' \<longrightarrow>
             (\<forall>u \<in> set (users db). \<forall>n. orderBy (category params) u = Some n \<longrightarrow> 0 \<le> n)"
    and "candidates params db = Some rows" "u \<in> set rows" "order_key params db u = Some n"
  shows "0 \<le> n"
proof (cases "period params = ''all_time''")
  case True
  with assms show ?thesis by (auto simp: candidates_def order_key_def)
next
  case False
  with assms(2,3,4) show ?thesis by (auto simp: candidates_def order_key_def split: if_splits)
qed

lemma scores_descend:
  assumes adm: "order_by_desc (order_key params db) rows ordered"
    and rows: "candidates params db = Some rows"
    and nonneg: "period params = ''all_time'' \<longrightarrow>
             (\<forall>u \<in> set (users db). \<forall>n. orderBy (category params) u = Some n \<longrightarrow> 0 \<le> n)"
  shows "sorted_wrt (\<lambda>a b. score b \<le> score a)
           (add_rank_numbers (map (select_row params db) (LIMIT n ordered)))"
proof -
  let ?xs = "LIMIT n ordered"
  have "sorted_wrt (\<lambda>a b. order_key params db b \<le> order_key params db a) ?xs"
    using adm by (simp add: order_by_desc_def sorted_wrt_LIMIT)
  moreover have "0 \<le> m" if "u \<in> set ?xs" "order_key params db u = Some m" for u m
  proof -
    from that(1) have "u \<in> set rows"
      using set_LIMIT [of n ordered] order_by_desc_set [OF adm] by blast
    then show ?thesis using candidates_key_nonneg [OF nonneg rows _ that(2)] by blast
  qed
  ultimately have "sorted_wrt (\<lambda>a b. b \<le> a)
      (map (\<lambda>u. COALESCE (order_key params db u) (0::int)) ?xs)"
    by (rule sorted_COALESCE)
  then have "sorted_wrt (\<lambda>a b. b \<le> a)
      (LIMIT n (map (\<lambda>k. COALESCE k 0) (map (order_key params db) ordered)))"
    by (simp add: map_LIMIT comp_def)
  then have "sorted_wrt (\<lambda>a b. b \<le> a)
      (map score (add_rank_numbers (map (select_row params db) (LIMIT n ordered))))"
    by (simp only: map_score_entries)
  then show ?thesis by (simp add: sorted_wrt_map)
qed




text \<open>The default limit, and the date filter that the database refuses.\<close>

lemma limit_default: "param_limit params = None \<Longrightarrow> bound_limit (limit params) = Some 25"
  using double_of_int_exact [of 25] double_of_int_exact [of 100]
  by (simp add: limit_def Math_min_def bound_limit_def)





lemma scenario_periods:
  "period default_params = ''all_time''" "period reports_params = ''all_time''"
  "period weekly_params = ''weekly''"
  "category default_params = ''points''" "category reports_params = ''reports''"
  by (simp_all add: period_def category_def default_params_def reports_params_def
      weekly_params_def or_default_def)

lemma scenario_limits:
  "bound_limit (limit default_params) = Some 25" "bound_limit (limit reports_params) = Some 25"
  by (simp_all add: limit_default default_params_def reports_params_def)

lemma scenario_candidates: "candidates default_params scenario_db = Some [u1, u2, u3]"
  by (simp add: candidates_def default_params_def scenario_db_def period_def category_def
      region_def or_default_def all_time_where_def regionFilter_def orderBy_def positive_def
      u1_def u2_def u3_def)

lemma scenario_keys:
  "order_key default_params scenario_db u1 = Some 100"
  "order_key default_params scenario_db u2 = Some 100"
  "order_key default_params scenario_db u3 = Some 50"
  by (simp_all add: order_key_def default_params_def period_def category_def or_default_def
      orderBy_def u1_def u2_def u3_def)

lemma scenario_distinct: "u1 \<noteq> u2" "u1 \<noteq> u3" "u2 \<noteq> u3"
  by (simp_all add: u1_def u2_def u3_def)

lemma scenario_answer: "answers default_params scenario_db [u1, u2, u3]"
  by (simp add: answers_def order_by_desc_def scenario_candidates scenario_keys)

lemma scenario_answers_last:
  assumes "answers default_params scenario_db ordered"
  shows "ordered = [u1, u2, u3] \<or> ordered = [u2, u1, u3]"
proof -
  from assms have m: "mset ordered = mset [u1, u2, u3]"
    and srt: "sorted_wrt (\<lambda>a b. order_key default_params scenario_db b
                 \<le> order_key default_params scenario_db a) ordered"
    by (simp_all add: answers_def order_by_desc_def scenario_candidates)
  from m have "length ordered = length [u1, u2, u3]" by (rule mset_eq_length)
  then obtain a b c where o: "ordered = [a, b, c]"
    by (auto simp: length_Suc_conv)
  from m have s: "set ordered = set [u1, u2, u3]" by (rule mset_eq_setD)
  have "distinct [u1, u2, u3]" by (simp add: scenario_distinct)
  with m have d: "distinct ordered" by (simp only: mset_eq_imp_distinct_iff [OF m])
  have c: "c = u3"
  proof (rule ccontr)
    assume "c \<noteq> u3"
    with s d have "a = u3 \<or> b = u3" unfolding o by auto
    moreover from s d \<open>c \<noteq> u3\<close> have "c = u1 \<or> c = u2" unfolding o by auto
    ultimately show False using srt unfolding o by (auto simp: scenario_keys)
  qed
  with s d have "a = u1 \<and> b = u2 \<or> a = u2 \<and> b = u1"
    unfolding o using scenario_distinct by auto
  with c show "ordered = [u1, u2, u3] \<or> ordered = [u2, u1, u3]"
    unfolding o by auto
qed

lemma scenario_entries_u1_first:
  "GET default_params scenario_db (Some [u1, u2, u3]) = Success
     [\<lparr>rank = 1, user_id = 1, display_name = ''u1'', avatar_url = None,
       guardian_rank = ''observer'', score = 100, entry_region = None\<rparr>,
      \<lparr>rank = 2, user_id = 2, display_name = ''u2'', avatar_url = None,
       guardian_rank = ''observer'', score = 100, entry_region = None\<rparr>,
      \<lparr>rank = 3, user_id = 3, display_name = ''u3'', avatar_url = None,
       guardian_rank = ''observer'', score = 50, entry_region = None\<rparr>]"
  by (simp add: GET_def scenario_candidates scenario_limits scenario_periods
      add_rank_numbers_def LIMIT_def select_row_def orderBy_def COALESCE_def
      enumerate_eq_zip upt_rec u1_def u2_def u3_def)

lemma scenario_entries_u2_first:
  "GET default_params scenario_db (Some [u2, u1, u3]) = Success
     [\<lparr>rank = 1, user_id = 2, display_name = ''u2'', avatar_url = None,
       guardian_rank = ''observer'', score = 100, entry_region = None\<rparr>,
      \<lparr>rank = 2, user_id = 1, display_name = ''u1'', avatar_url = None,
       guardian_rank = ''observer'', score = 100, entry_region = None\<rparr>,
      \<lparr>rank = 3, user_id = 3, display_name = ''u3'', avatar_url = None,
       guardian_rank = ''observer'', score = 50, entry_region = None\<rparr>]"
  by (simp add: GET_def scenario_candidates scenario_limits scenario_periods
      add_rank_numbers_def LIMIT_def select_row_def orderBy_def COALESCE_def
      enumerate_eq_zip upt_rec u1_def u2_def u3_def)

lemma scenario_every_answer:
  assumes "answers default_params scenario_db answer"
    and "GET default_params scenario_db (Some answer) = Success result"
  shows "map rank result = [1, 2, 3] \<and> map score result = [100, 100, 50] \<and>
         map user_id (drop 2 result) = [3]"
proof -
  from scenario_answers_last [OF assms(1)]
  consider "answer = [u1, u2, u3]" | "answer = [u2, u1, u3]" by blast
  then show ?thesis
  proof cases
    case 1
    with assms(2) show ?thesis by (auto simp: scenario_entries_u1_first)
  next
    case 2
    with assms(2) show ?thesis by (auto simp: scenario_entries_u2_first)
  qed
qed

text \<open>The ranking by reports of the two guardians with and without a counter.\<close>

lemma null_counter_candidates:
  "candidates reports_params null_counter_db = Some [guardian_3, guardian_5]"
  by (simp add: candidates_def reports_params_def null_counter_db_def period_def category_def
      region_def or_default_def all_time_where_def regionFilter_def orderBy_def positive_def
      guardian_3_def guardian_5_def)

lemma null_counter_keys:
  "order_key reports_params null_counter_db guardian_3 = None"
  "order_key reports_params null_counter_db guardian_5 = Some 0"
  by (simp_all add: order_key_def reports_params_def period_def category_def or_default_def
      orderBy_def guardian_3_def guardian_5_def)

lemma null_counter_answers:
  "answers reports_params null_counter_db ordered \<longleftrightarrow> ordered = [guardian_5, guardian_3]"
proof
  assume "answers reports_params null_counter_db ordered"
  then have m: "mset ordered = mset [guardian_3, guardian_5]"
    and srt: "sorted_wrt (\<lambda>a b. order_key reports_params null_counter_db b
                 \<le> order_key reports_params null_counter_db a) ordered"
    by (simp_all add: answers_def order_by_desc_def null_counter_candidates)
  from m have "length ordered = length [guardian_3, guardian_5]" by (rule mset_eq_length)
  then obtain a b where o: "ordered = [a, b]"
    by (auto simp: length_Suc_conv)
  from m have s: "set ordered = set [guardian_3, guardian_5]" by (rule mset_eq_setD)
  have "distinct [guardian_3, guardian_5]" by (simp add: guardian_3_def guardian_5_def)
  with m have d: "distinct ordered" by (simp only: mset_eq_imp_distinct_iff [OF m])
  have "a \<noteq> guardian_3"
  proof
    assume "a = guardian_3"
    with s d have "b = guardian_5" unfolding o by (auto simp: doubleton_eq_iff)
    with \<open>a = guardian_3\<close> srt show False unfolding o by (simp add: null_counter_keys)
  qed
  with s d show "ordered = [guardian_5, guardian_3]" unfolding o
    by (auto simp: doubleton_eq_iff)
next
  assume "ordered = [guardian_5, guardian_3]"
  then show "answers reports_params null_counter_db ordered"
    by (simp add: answers_def order_by_desc_def null_counter_candidates null_counter_keys)
qed

text \<open>
  C5, as stated, fails: in the all-time ranking by reports the guardian with id 5 and the
  guardian with id 3 both have score 0, and the only order in which the database can
  answer puts id 5 first, because the query orders by the column itself, where the
  missing counter of id 3 comes after the counter 0 of id 5.
\<close>

theorem tie_break_counterexample:
  "(\<forall>ordered. answers reports_params null_counter_db ordered = (ordered = [guardian_5, guardian_3]))
   \<and> GET reports_params null_counter_db (Some [guardian_5, guardian_3]) = Success
     [\<lparr>rank = 1, user_id = 5, display_name = ''kofi'', avatar_url = None,
       guardian_rank = ''observer'', score = 0, entry_region = None\<rparr>,
      \<lparr>rank = 2, user_id = 3, display_name = ''ama'', avatar_url = None,
       guardian_rank = ''observer'', score = 0, entry_region = None\<rparr>]"
proof -
  have "GET reports_params null_counter_db (Some [guardian_5, guardian_3]) = Success
     [\<lparr>rank = 1, user_id = 5, display_name = ''kofi'', avatar_url = None,
       guardian_rank = ''observer'', score = 0, entry_region = None\<rparr>,
      \<lparr>rank = 2, user_id = 3, display_name = ''ama'', avatar_url = None,
       guardian_rank = ''observer'', score = 0, entry_region = None\<rparr>]"
    by (simp add: GET_def null_counter_candidates scenario_limits scenario_periods
        add_rank_numbers_def LIMIT_def select_row_def orderBy_def COALESCE_def
        enumerate_eq_zip upt_rec guardian_3_def guardian_5_def)
  then show ?thesis by (simp add: null_counter_answers)
qed

text \<open>
  C5, amended. The entries follow the order in which the database answers, with ranks
  1, 2, 3, ... in that order. The query orders by the category column, descending, and
  names no second key. Any two answers of the database to the same query on the same
  data give the same ranks and the same score at every rank, and the same list of
  entries when no two users have the same value in the ordering column. Scores descend
  (in an all-time ranking provided no counter is negative). For u1 and u2 at 100 and u3
  at 50 every answer has the ranks 1, 2, 3, the scores 100, 100, 50 and u3 last, and
  the answer with u1 before u2 is one of them.
\<close>

theorem leaderboard_ranking:
  "answers params db ordered \<Longrightarrow> answers params db ordered' \<Longrightarrow>
   GET params db (Some ordered) = Success entries \<Longrightarrow>
   GET params db (Some ordered') = Success entries' \<Longrightarrow>
     map rank entries = map int [1..<Suc (length entries)]
   \<and> (\<exists>n. bound_limit (limit params) = Some n \<and>
          map user_id entries = map u_id (LIMIT n ordered))
   \<and> map rank entries' = map rank entries
   \<and> map score entries' = map score entries
   \<and> (inj_on (order_key params db) (set (users db)) \<longrightarrow> entries' = entries)
   \<and> ((period params = ''all_time'' \<longrightarrow>
         (\<forall>u \<in> set (users db). \<forall>n. orderBy (category params) u = Some n \<longrightarrow> 0 \<le> n)) \<longrightarrow>
       sorted_wrt (\<lambda>a b. score b \<le> score a) entries)
   \<and> (\<forall>answer result.
         answers default_params scenario_db answer \<and>
         GET default_params scenario_db (Some answer) = Success result \<longrightarrow>
           map rank result = [1, 2, 3] \<and> map score result = [100, 100, 50] \<and>
           map user_id (drop 2 result) = [3])
   \<and> answers default_params scenario_db [u1, u2, u3]
   \<and> (\<exists>result. GET default_params scenario_db (Some [u1, u2, u3]) = Success result \<and>
         map (\<lambda>e. (rank e, user_id e, score e)) result =
           [(1, 1, 100), (2, 2, 100), (3, 3, 50)])"
proof -
  assume adm: "answers params db ordered" and adm': "answers params db ordered'"
    and get: "GET params db (Some ordered) = Success entries"
    and get': "GET params db (Some ordered') = Success entries'"
  from GET_Success [OF get] obtain rows n where rows: "candidates params db = Some rows"
    and n: "bound_limit (limit params) = Some n"
    and e: "entries = add_rank_numbers (map (select_row params db) (LIMIT n ordered))"
    by blast
  from GET_Success [OF get'] rows n
  have e': "entries' = add_rank_numbers (map (select_row params db) (LIMIT n ordered'))"
    by auto
  note o = answers_candidates [OF adm rows] and o' = answers_candidates [OF adm' rows]
  have dense: "map rank entries = map int [1..<Suc (length entries)]"
    unfolding e by (simp add: map_rank_add_rank_numbers length_add_rank_numbers)
  have dense': "map rank entries' = map int [1..<Suc (length entries')]"
    unfolding e' by (simp add: map_rank_add_rank_numbers length_add_rank_numbers)
  have ids: "map user_id entries = map u_id (LIMIT n ordered)"
    unfolding e by (rule map_user_id_entries)
  have sc: "map score entries' = map score entries"
    unfolding e e' map_score_entries using order_by_desc_keys [OF o' o] by simp
  then have "length entries' = length entries"
    by (rule map_eq_imp_length_eq)
  then have rk: "map rank entries' = map rank entries"
    using dense dense' by simp
  have uniq: "entries' = entries" if "inj_on (order_key params db) (set (users db))"
  proof -
    from that candidates_subset [OF rows] have "inj_on (order_key params db) (set rows)"
      by (rule inj_on_subset)
    with o' o have "ordered' = ordered" by (rule order_by_desc_unique)
    then show ?thesis by (simp add: e e')
  qed
  have desc: "sorted_wrt (\<lambda>a b. score b \<le> score a) entries"
    if "period params = ''all_time'' \<longrightarrow>
         (\<forall>u \<in> set (users db). \<forall>n. orderBy (category params) u = Some n \<longrightarrow> 0 \<le> n)"
    unfolding e using o rows that by (rule scores_descend)
  have ex: "\<exists>result. GET default_params scenario_db (Some [u1, u2, u3]) = Success result \<and>
         map (\<lambda>e. (rank e, user_id e, score e)) result =
           [(1, 1, 100), (2, 2, 100), (3, 3, 50)]"
    by (simp add: scenario_entries_u1_first)
  show ?thesis
    using dense n ids rk sc uniq desc scenario_every_answer scenario_answer ex
    by blast
qed

theorem leaderboard_ranking_witness:
  "answers default_params scenario_db [u1, u2, u3]
   \<and> (\<exists>entries. GET default_params scenario_db (Some [u1, u2, u3]) = Success entries
        \<and> map rank entries = [1, 2, 3]
        \<and> map user_id entries = [1, 2, 3]
        \<and> sorted_wrt (\<lambda>a b. score b \<le> score a) entries)"
proof -
  have n: "\<forall>u \<in> set (users scenario_db). \<forall>n. orderBy (category default_params) u = Some n \<longrightarrow> 0 \<le> n"
    by (simp add: scenario_db_def orderBy_def scenario_periods u1_def u2_def u3_def)
  show ?thesis
    using leaderboard_ranking [OF scenario_answer scenario_answer scenario_entries_u1_first
        scenario_entries_u1_first] scenario_answer scenario_entries_u1_first n
    by simp
qed















end
